theory Spec2Isabelle
  imports Complex_Main "HOL-Library.Word"
begin

unbundle bit_operations_syntax

section \<open>The custom executable-code heap of ChakraCore (lib/Common/Memory/CustomHeap.h)\<close>

text \<open>
  Machine types. The model is the 64-bit build: \<open>size_t\<close> and pointers are 64-bit words,
  \<open>unsigned int\<close> and \<open>BVIndex\<close> are 32-bit words, \<open>ushort\<close> is a 16-bit word. A pointer
  (\<open>char*\<close>, \<open>void*\<close>) is the word holding its address; \<open>nullptr\<close> is \<open>0\<close>.
\<close>

type_synonym size_t = "64 word"
type_synonym uint = "32 word"
type_synonym ushort = "16 word"
type_synonym BVIndex = "32 word"
type_synonym ptr = "64 word"

subsection \<open>BucketId\<close>

datatype BucketId =
    InvalidBucket
  | SmallObjectList
  | Bucket256
  | Bucket512
  | Bucket1024
  | Bucket2048
  | Bucket4096
  | LargeObjectList
  | NumBuckets

text \<open>The integer value of each enumerator: \<open>InvalidBucket = -1\<close>, then counting from 0.\<close>

fun BucketId_value :: "BucketId \<Rightarrow> int" where
  "BucketId_value InvalidBucket = - 1"
| "BucketId_value SmallObjectList = 0"
| "BucketId_value Bucket256 = 1"
| "BucketId_value Bucket512 = 2"
| "BucketId_value Bucket1024 = 3"
| "BucketId_value Bucket2048 = 4"
| "BucketId_value Bucket4096 = 5"
| "BucketId_value LargeObjectList = 6"
| "BucketId_value NumBuckets = 7"

subsection \<open>BVUnit: the 32-bit free bit vector\<close>

text \<open>
  Modelled from the spec: the class \<open>BVUnit\<close> (the type of \<open>Page::freeBitVector\<close>) and the
  constant \<open>BVInvalidIndex\<close> are not in CustomHeap.h. The spec describes the vector as a 32-bit
  word in which bit \<open>i\<close> set means that chunk \<open>i\<close> is free, "full" when all bits are ones and
  empty when it is zero, with the primitive "find the first run of \<open>k\<close> consecutive ones in
  a 32-bit word", ties broken by the lowest index. \<open>BVInvalidIndex\<close> is the all-ones index
  \<open>(BVIndex)-1\<close>, returned when there is no such run.
\<close>

definition BVInvalidIndex :: BVIndex where
  "BVInvalidIndex = - 1"

definition BVUnit_IsEmpty :: "32 word \<Rightarrow> bool" where
  "BVUnit_IsEmpty w \<longleftrightarrow> w = 0"

definition BVUnit_IsFull :: "32 word \<Rightarrow> bool" where
  "BVUnit_IsFull w \<longleftrightarrow> w = 0xFFFFFFFF"

text \<open>\<open>run_of_ones w i n\<close>: the \<open>n\<close> bits of \<open>w\<close> from index \<open>i\<close> up are all set, inside the word.\<close>

definition run_of_ones :: "32 word \<Rightarrow> nat \<Rightarrow> nat \<Rightarrow> bool" where
  "run_of_ones w i n \<longleftrightarrow> i + n \<le> 32 \<and> list_all (bit w) [i..<i + n]"

definition BVUnit_FirstStringOfOnes :: "32 word \<Rightarrow> uint \<Rightarrow> BVIndex" where
  "BVUnit_FirstStringOfOnes w l =
     (case find (\<lambda>i. run_of_ones w i (unat l)) [0..<32] of
        None \<Rightarrow> BVInvalidIndex
      | Some i \<Rightarrow> of_nat i)"

subsection \<open>Page\<close>

record PageAllocatorAllocation =
  isDecommitted :: bool

record Page = PageAllocatorAllocation +
  segment :: ptr
  freeBitVector :: "32 word"
  address :: ptr
  currentBucket :: BucketId

definition Page_Alignment :: uint where
  "Page_Alignment = 128"

definition Page_MaxAllocationSize :: uint where
  "Page_MaxAllocationSize = 4096"

definition Page_HasNoSpace :: "Page \<Rightarrow> bool" where
  "Page_HasNoSpace p \<longleftrightarrow> BVUnit_IsEmpty (freeBitVector p)"

definition Page_IsEmpty :: "Page \<Rightarrow> bool" where
  "Page_IsEmpty p \<longleftrightarrow> BVUnit_IsFull (freeBitVector p)"

text \<open>
  \<open>targetBucket + 1\<close> is an \<open>int\<close>, converted to the \<open>unsigned int\<close> parameter of
  \<open>FirstStringOfOnes\<close>.
\<close>

definition Page_CanAllocate :: "Page \<Rightarrow> BucketId \<Rightarrow> bool" where
  "Page_CanAllocate p targetBucket \<longleftrightarrow>
     BVUnit_FirstStringOfOnes (freeBitVector p) (of_int (BucketId_value targetBucket + 1))
       \<noteq> BVInvalidIndex"

text \<open>The constructor \<open>Page(address, segment, bucket)\<close>.\<close>

definition Page_new :: "ptr \<Rightarrow> ptr \<Rightarrow> BucketId \<Rightarrow> Page" where
  "Page_new addr seg bucket =
     \<lparr> isDecommitted = False, segment = seg, freeBitVector = 0xFFFFFFFF,
       address = addr, currentBucket = bucket \<rparr>"

subsection \<open>Allocation\<close>

text \<open>
  The anonymous union of \<open>Allocation\<close>: either the owning \<open>Page*\<close> (an index into the heap's
  page records) or the \<open>largeObjectAllocation\<close> struct with its \<open>isDecommitted\<close> flag and
  segment. The fields \<open>address\<close> and \<open>size\<close> are named \<open>alloc_address\<close> and \<open>alloc_size\<close>
  here; \<open>xdata\<close> is the secondary-data descriptor (its \<open>pdataCount\<close> and \<open>xdataSize\<close>), absent
  when no secondary data was allocated.
\<close>

datatype AllocationOwner =
    OwnerPage nat
  | OwnerLargeObject bool ptr

record Allocation =
  owner :: AllocationOwner
  alloc_address :: ptr
  alloc_size :: size_t
  xdata :: "(ushort \<times> ushort) option"

definition Allocation_IsLargeAllocation :: "Allocation \<Rightarrow> bool" where
  "Allocation_IsLargeAllocation a \<longleftrightarrow> alloc_size a > ucast Page_MaxAllocationSize"

text \<open>
  \<open>GetPageCount\<close> asserts that the allocation is large; a failed assertion is \<open>None\<close>.
  \<open>AutoSystemInfo::PageSize\<close> is not defined in this file and is the first parameter.
\<close>

definition Allocation_GetPageCount :: "size_t \<Rightarrow> Allocation \<Rightarrow> size_t option" where
  "Allocation_GetPageCount PageSize a =
     (if Allocation_IsLargeAllocation a then Some (alloc_size a div PageSize) else None)"

subsection \<open>The inline size helpers of Heap\<close>

definition Heap_GetChunkSizeForBytes :: "size_t \<Rightarrow> uint" where
  "Heap_GetChunkSizeForBytes bytes =
     (if bytes > ucast Page_Alignment then (ucast bytes :: uint) div Page_Alignment else 1)"

text \<open>
  Modelled from the spec: \<open>AllocSizeMath::Add\<close> is not in CustomHeap.h. The spec has the page
  count computation fail "on arithmetic overflow", and \<open>GetNumPagesForSize\<close> tests the sum
  against \<open>(size_t)-1\<close>: the addition returns the sum, or \<open>(size_t)-1\<close> when it wrapped around.
\<close>

definition AllocSizeMath_Add :: "size_t \<Rightarrow> size_t \<Rightarrow> size_t" where
  "AllocSizeMath_Add left right =
     (let allocSize = left + right in if allocSize < left then - 1 else allocSize)"

definition Heap_GetNumPagesForSize :: "size_t \<Rightarrow> size_t \<Rightarrow> size_t" where
  "Heap_GetNumPagesForSize PageSize bytes =
     (let allocSize = AllocSizeMath_Add bytes PageSize in
      if allocSize = - 1 then 0 else (allocSize - 1) div PageSize)"

definition Heap_GetFreeIndexForPage :: "Page \<Rightarrow> size_t \<Rightarrow> BVIndex" where
  "Heap_GetFreeIndexForPage p bytes =
     (let length = Heap_GetChunkSizeForBytes bytes;
          index = BVUnit_FirstStringOfOnes (freeBitVector p) length
      in index)"

subsection \<open>The underlying page allocators and their segments\<close>

text \<open>
  Modelled from the spec: \<open>HeapPageAllocator<T>\<close> and \<open>Segment\<close> are not in CustomHeap.h; the
  spec lists them as external collaborators with the contract "\<open>alloc_pages(n)\<close> gives
  \<open>(addr, segment)\<close> or null", "\<open>release_pages(addr, n, segment)\<close>", "\<open>alloc_secondary\<close> gives a
  descriptor or fails; \<open>release_secondary(descriptor, segment)\<close>", and a segment handle that
  answers \<open>can_alloc_secondary()\<close> and \<open>is_in_pre_reserved_region()\<close>.

  An underlying allocator is a script: \<open>responses\<close> holds what its next allocation calls
  return, oldest first (an address, \<open>nullptr\<close> for a failed call; the segment it writes to
  the out-parameter; the page count \<open>Alloc\<close> writes back). An exhausted script fails every
  call. \<open>allocXdata\<close> is the immutable flag behind \<open>AllocXdata()\<close>.

  A segment carries its pre-reserved flag and a secondary allocator with a number of free
  slots: \<open>alloc_secondary\<close> takes a slot and fails when none is free, \<open>release_secondary\<close> gives
  one back, and \<open>can_alloc_secondary\<close> says that a slot is free.
\<close>

record PageAllocResponse =
  resp_address :: ptr
  resp_segment :: ptr
  resp_pages :: size_t

record HeapPageAllocator =
  allocXdata :: bool
  responses :: "PageAllocResponse list"

record Segment =
  IsInPreReservedHeapPageAllocator :: bool
  secondaryFree :: nat

definition Segment_CanAllocSecondary :: "Segment \<Rightarrow> bool" where
  "Segment_CanAllocSecondary s \<longleftrightarrow> 0 < secondaryFree s"

datatype AllocatorKind = General | PreReserved

datatype PageAllocatorCall =
    CallAlloc AllocatorKind size_t
  | CallAllocPages AllocatorKind size_t
  | CallRelease AllocatorKind ptr size_t ptr
  | CallDecommitPages AllocatorKind ptr size_t
  | CallTrackDecommittedPages AllocatorKind ptr size_t ptr

subsection \<open>CodePageAllocators\<close>

text \<open>
  The two allocators of the class, \<open>pageAllocator\<close> (general) and
  \<open>preReservedHeapPageAllocator\<close>. \<open>segments\<close> is the memory behind the \<open>void*\<close> segment
  handles (the \<open>Segment\<close> objects, owned by the underlying allocators). \<open>calls\<close> is a history
  of the calls made to the two allocators, oldest first; the code never reads it. The
  critical section \<open>cs\<close> and the assertions that it is held are left out: the model is
  sequential.
\<close>

record CodePageAllocators =
  pageAllocator :: HeapPageAllocator
  preReservedHeapPageAllocator :: HeapPageAllocator
  segments :: "ptr \<Rightarrow> Segment"
  calls :: "PageAllocatorCall list"

definition allocator_of :: "AllocatorKind \<Rightarrow> CodePageAllocators \<Rightarrow> HeapPageAllocator" where
  "allocator_of kind cpa =
     (case kind of General \<Rightarrow> pageAllocator cpa | PreReserved \<Rightarrow> preReservedHeapPageAllocator cpa)"

definition next_response :: "HeapPageAllocator \<Rightarrow> PageAllocResponse" where
  "next_response pa =
     (case responses pa of
        [] \<Rightarrow> \<lparr> resp_address = 0, resp_segment = 0, resp_pages = 0 \<rparr>
      | r # rs \<Rightarrow> r)"

text \<open>One call of the named allocator: its script moves on and the call is recorded.\<close>

definition allocator_called ::
  "AllocatorKind \<Rightarrow> PageAllocatorCall \<Rightarrow> CodePageAllocators \<Rightarrow> CodePageAllocators" where
  "allocator_called kind call cpa =
     (case kind of
        General \<Rightarrow>
          cpa \<lparr> pageAllocator := (pageAllocator cpa)
                  \<lparr> responses := tl (responses (pageAllocator cpa)) \<rparr>,
                calls := calls cpa @ [call] \<rparr>
      | PreReserved \<Rightarrow>
          cpa \<lparr> preReservedHeapPageAllocator := (preReservedHeapPageAllocator cpa)
                  \<lparr> responses := tl (responses (preReservedHeapPageAllocator cpa)) \<rparr>,
                calls := calls cpa @ [call] \<rparr>)"

text \<open>
  \<open>HeapPageAllocator::AllocPages(pageCount, &pageSegment)\<close>: the address, the segment
  out-parameter (written on success only) and the new state.
\<close>

definition HeapPageAllocator_AllocPages ::
  "AllocatorKind \<Rightarrow> CodePageAllocators \<Rightarrow> size_t \<Rightarrow> ptr \<Rightarrow> ptr \<times> ptr \<times> CodePageAllocators" where
  "HeapPageAllocator_AllocPages kind cpa pageCount pageSegment =
     (let r = next_response (allocator_of kind cpa)
      in (resp_address r,
          if resp_address r = 0 then pageSegment else resp_segment r,
          allocator_called kind (CallAllocPages kind pageCount) cpa))"

text \<open>
  \<open>HeapPageAllocator::Alloc(&pages, &segment)\<close>: the address, the page count and segment
  out-parameters (written on success only) and the new state.
\<close>

definition HeapPageAllocator_Alloc ::
  "AllocatorKind \<Rightarrow> CodePageAllocators \<Rightarrow> size_t \<Rightarrow> ptr
     \<Rightarrow> ptr \<times> size_t \<times> ptr \<times> CodePageAllocators" where
  "HeapPageAllocator_Alloc kind cpa pages seg =
     (let r = next_response (allocator_of kind cpa)
      in (resp_address r,
          if resp_address r = 0 then pages else resp_pages r,
          if resp_address r = 0 then seg else resp_segment r,
          allocator_called kind (CallAlloc kind pages) cpa))"

definition HeapPageAllocator_Release ::
  "AllocatorKind \<Rightarrow> CodePageAllocators \<Rightarrow> ptr \<Rightarrow> size_t \<Rightarrow> ptr \<Rightarrow> CodePageAllocators" where
  "HeapPageAllocator_Release kind cpa addr pageCount seg =
     cpa \<lparr> calls := calls cpa @ [CallRelease kind addr pageCount seg] \<rparr>"

definition HeapPageAllocator_DecommitPages ::
  "AllocatorKind \<Rightarrow> CodePageAllocators \<Rightarrow> ptr \<Rightarrow> size_t \<Rightarrow> CodePageAllocators" where
  "HeapPageAllocator_DecommitPages kind cpa addr pageCount =
     cpa \<lparr> calls := calls cpa @ [CallDecommitPages kind addr pageCount] \<rparr>"

definition HeapPageAllocator_TrackDecommittedPages ::
  "AllocatorKind \<Rightarrow> CodePageAllocators \<Rightarrow> ptr \<Rightarrow> size_t \<Rightarrow> ptr \<Rightarrow> CodePageAllocators" where
  "HeapPageAllocator_TrackDecommittedPages kind cpa addr pageCount seg =
     cpa \<lparr> calls := calls cpa @ [CallTrackDecommittedPages kind addr pageCount seg] \<rparr>"

definition HeapPageAllocator_AllocSecondary ::
  "AllocatorKind \<Rightarrow> CodePageAllocators \<Rightarrow> ptr \<Rightarrow> ptr \<Rightarrow> uint \<Rightarrow> ushort \<Rightarrow> ushort
     \<Rightarrow> bool \<times> CodePageAllocators" where
  "HeapPageAllocator_AllocSecondary kind cpa seg functionStart functionSize pdataCount xdataSize =
     (let s = segments cpa seg
      in if Segment_CanAllocSecondary s
         then (True, cpa \<lparr> segments := (segments cpa)
                 (seg := s \<lparr> secondaryFree := secondaryFree s - 1 \<rparr>) \<rparr>)
         else (False, cpa))"

definition HeapPageAllocator_ReleaseSecondary ::
  "AllocatorKind \<Rightarrow> CodePageAllocators \<Rightarrow> (ushort \<times> ushort) \<Rightarrow> ptr \<Rightarrow> CodePageAllocators" where
  "HeapPageAllocator_ReleaseSecondary kind cpa allocation seg =
     (let s = segments cpa seg
      in cpa \<lparr> segments := (segments cpa) (seg := s \<lparr> secondaryFree := secondaryFree s + 1 \<rparr>) \<rparr>)"

definition CodePageAllocators_AllocXdata :: "CodePageAllocators \<Rightarrow> bool" where
  "CodePageAllocators_AllocXdata cpa = allocXdata (preReservedHeapPageAllocator cpa)"

definition CodePageAllocators_IsPreReservedSegment :: "CodePageAllocators \<Rightarrow> ptr \<Rightarrow> bool" where
  "CodePageAllocators_IsPreReservedSegment cpa seg =
     IsInPreReservedHeapPageAllocator (segments cpa seg)"

text \<open>
  \<open>Alloc\<close> and \<open>AllocPages\<close> return the address; the out-parameters (\<open>*pages\<close>, \<open>*segment\<close>,
  \<open>*isAllJITCodeInPreReservedRegion\<close>) are returned after it, then the new state.
\<close>

definition CodePageAllocators_Alloc ::
  "CodePageAllocators \<Rightarrow> size_t \<Rightarrow> ptr \<Rightarrow> bool \<Rightarrow> bool \<Rightarrow> bool
     \<Rightarrow> ptr \<times> size_t \<times> ptr \<times> bool \<times> CodePageAllocators" where
  "CodePageAllocators_Alloc cpa pages seg canAllocInPreReservedHeapPageSegment isAnyJittedCode
       isAllJITCodeInPreReservedRegion =
     (let (address, pages, seg, cpa) =
            (if canAllocInPreReservedHeapPageSegment
             then HeapPageAllocator_Alloc PreReserved cpa pages seg
             else (0, pages, seg, cpa))
      in if address = 0
         then
           (let isAllJITCodeInPreReservedRegion =
                  (if isAnyJittedCode then False else isAllJITCodeInPreReservedRegion);
                (address, pages, seg, cpa) = HeapPageAllocator_Alloc General cpa pages seg
            in (address, pages, seg, isAllJITCodeInPreReservedRegion, cpa))
         else (address, pages, seg, isAllJITCodeInPreReservedRegion, cpa))"

definition CodePageAllocators_AllocPages ::
  "CodePageAllocators \<Rightarrow> size_t \<Rightarrow> ptr \<Rightarrow> bool \<Rightarrow> bool \<Rightarrow> bool
     \<Rightarrow> ptr \<times> ptr \<times> bool \<times> CodePageAllocators" where
  "CodePageAllocators_AllocPages cpa pages pageSegment canAllocInPreReservedHeapPageSegment
       isAnyJittedCode isAllJITCodeInPreReservedRegion =
     (let (address, pageSegment, cpa) =
            (if canAllocInPreReservedHeapPageSegment
             then HeapPageAllocator_AllocPages PreReserved cpa 1 pageSegment
             else (0, pageSegment, cpa))
      in if address = 0
         then
           (let isAllJITCodeInPreReservedRegion =
                  (if isAnyJittedCode then False else isAllJITCodeInPreReservedRegion);
                (address, pageSegment, cpa) = HeapPageAllocator_AllocPages General cpa 1 pageSegment
            in (address, pageSegment, isAllJITCodeInPreReservedRegion, cpa))
         else (address, pageSegment, isAllJITCodeInPreReservedRegion, cpa))"

definition CodePageAllocators_Release ::
  "CodePageAllocators \<Rightarrow> ptr \<Rightarrow> size_t \<Rightarrow> ptr \<Rightarrow> CodePageAllocators" where
  "CodePageAllocators_Release cpa addr pageCount seg =
     (if CodePageAllocators_IsPreReservedSegment cpa seg
      then HeapPageAllocator_Release PreReserved cpa addr pageCount seg
      else HeapPageAllocator_Release General cpa addr pageCount seg)"

definition CodePageAllocators_DecommitPages ::
  "CodePageAllocators \<Rightarrow> ptr \<Rightarrow> size_t \<Rightarrow> ptr \<Rightarrow> CodePageAllocators" where
  "CodePageAllocators_DecommitPages cpa addr pageCount seg =
     (if CodePageAllocators_IsPreReservedSegment cpa seg
      then HeapPageAllocator_DecommitPages PreReserved cpa addr pageCount
      else HeapPageAllocator_DecommitPages General cpa addr pageCount)"

definition CodePageAllocators_TrackDecommittedPages ::
  "CodePageAllocators \<Rightarrow> ptr \<Rightarrow> size_t \<Rightarrow> ptr \<Rightarrow> CodePageAllocators" where
  "CodePageAllocators_TrackDecommittedPages cpa addr pageCount seg =
     (if CodePageAllocators_IsPreReservedSegment cpa seg
      then HeapPageAllocator_TrackDecommittedPages PreReserved cpa addr pageCount seg
      else HeapPageAllocator_TrackDecommittedPages General cpa addr pageCount seg)"

text \<open>\<open>functionSize_t\<close> is cast to the 32-bit \<open>DWORD functionSize\<close>.\<close>

definition CodePageAllocators_AllocSecondary ::
  "CodePageAllocators \<Rightarrow> ptr \<Rightarrow> ptr \<Rightarrow> size_t \<Rightarrow> ushort \<Rightarrow> ushort
     \<Rightarrow> bool \<times> CodePageAllocators" where
  "CodePageAllocators_AllocSecondary cpa seg functionStart functionSize_t pdataCount xdataSize =
     (let functionSize = (ucast functionSize_t :: uint)
      in if CodePageAllocators_IsPreReservedSegment cpa seg
         then HeapPageAllocator_AllocSecondary PreReserved cpa seg functionStart functionSize
                pdataCount xdataSize
         else HeapPageAllocator_AllocSecondary General cpa seg functionStart functionSize
                pdataCount xdataSize)"

definition CodePageAllocators_ReleaseSecondary ::
  "CodePageAllocators \<Rightarrow> (ushort \<times> ushort) \<Rightarrow> ptr \<Rightarrow> CodePageAllocators" where
  "CodePageAllocators_ReleaseSecondary cpa allocation seg =
     (if CodePageAllocators_IsPreReservedSegment cpa seg
      then HeapPageAllocator_ReleaseSecondary PreReserved cpa allocation seg
      else HeapPageAllocator_ReleaseSecondary General cpa allocation seg)"

text \<open>The calls made between two states of the allocators.\<close>

definition new_calls :: "CodePageAllocators \<Rightarrow> CodePageAllocators \<Rightarrow> PageAllocatorCall list" where
  "new_calls before after = drop (length (calls before)) (calls after)"

text \<open>
  The address the pre-reserved allocator, and the general one, return at their next call.
\<close>

definition pre_answer :: "CodePageAllocators \<Rightarrow> ptr" where
  "pre_answer cpa = resp_address (next_response (preReservedHeapPageAllocator cpa))"

definition general_answer :: "CodePageAllocators \<Rightarrow> ptr" where
  "general_answer cpa = resp_address (next_response (pageAllocator cpa))"

text \<open>
  An example pair of allocators with the given scripts, secondary data enabled, no call
  made yet, and every segment outside the pre-reserved region with \<open>slots\<close> free secondary
  slots.
\<close>

definition example_allocators ::
  "PageAllocResponse list \<Rightarrow> PageAllocResponse list \<Rightarrow> nat \<Rightarrow> CodePageAllocators" where
  "example_allocators general pre slots =
     \<lparr> pageAllocator = \<lparr> allocXdata = True, responses = general \<rparr>,
       preReservedHeapPageAllocator = \<lparr> allocXdata = True, responses = pre \<rparr>,
       segments = (\<lambda>seg. \<lparr> IsInPreReservedHeapPageAllocator = False, secondaryFree = slots \<rparr>),
       calls = [] \<rparr>"

subsection \<open>Heap\<close>

text \<open>
  The fields of the class. \<open>codePageAllocators\<close> is a pointer in the source; the model is
  one heap with its allocators, so the record holds their state. \<open>pageRecords\<close> stands for
  the \<open>Page\<close> records that \<open>auxiliaryAllocator\<close> hands out: a \<open>Page*\<close> is an index into it, a new
  record is appended, and the lists hold such indices. An array over \<open>NumBuckets\<close> is a
  function of the bucket.
\<close>

record Heap =
  codePageAllocators :: CodePageAllocators
  pageRecords :: "Page list"
  buckets :: "BucketId \<Rightarrow> nat list"
  fullPages :: "BucketId \<Rightarrow> nat list"
  largeObjectAllocations :: "Allocation list"
  decommittedPages :: "nat list"
  decommittedLargeObjects :: "Allocation list"

text \<open>Dereferencing a \<open>Page*\<close>; \<open>None\<close> for an index that is no record.\<close>

definition Heap_page :: "Heap \<Rightarrow> nat \<Rightarrow> Page option" where
  "Heap_page h p = (if p < length (pageRecords h) then Some (pageRecords h ! p) else None)"

text \<open>
  \<open>ShouldBeInFullList\<close>, as the header has it; \<open>Segment::CanAllocSecondary\<close> is the
  collaborator's.
\<close>

definition Heap_ShouldBeInFullList :: "Heap \<Rightarrow> Page \<Rightarrow> bool" where
  "Heap_ShouldBeInFullList h page \<longleftrightarrow>
     Page_HasNoSpace page
     \<or> (CodePageAllocators_AllocXdata (codePageAllocators h)
        \<and> \<not> Segment_CanAllocSecondary (segments (codePageAllocators h) (segment page)))"

text \<open>
  \<open>bucketIds\<close> are the indices \<open>0 .. NumBuckets - 1\<close> of an array over \<open>NumBuckets\<close>.
\<close>

definition bucketIds :: "BucketId list" where
  "bucketIds = [SmallObjectList, Bucket256, Bucket512, Bucket1024, Bucket2048, Bucket4096,
                LargeObjectList]"

text \<open>
  \<open>TransferPages\<close>, as the header has it: for every bucket index, in order, each page of
  \<open>fromList[bucket]\<close> that satisfies the predicate is moved to \<open>toList[bucket]\<close>. Modelled
  from the spec: \<open>DListBase\<close> and its editing iterator are not in CustomHeap.h;
  \<open>MoveCurrentTo\<close> takes the current entry out of its list and puts it at the head of the
  other list. The assertion \<open>fromList != toList\<close> is left out: the two arrays are separate
  values here.
\<close>

definition Heap_TransferPages ::
  "(nat \<Rightarrow> bool) \<Rightarrow> (BucketId \<Rightarrow> nat list) \<Rightarrow> (BucketId \<Rightarrow> nat list)
     \<Rightarrow> (BucketId \<Rightarrow> nat list) \<times> (BucketId \<Rightarrow> nat list)" where
  "Heap_TransferPages predicate fromList toList =
     fold (\<lambda>bucket (fromList, toList).
             (fromList (bucket := filter (\<lambda>page. \<not> predicate page) (fromList bucket)),
              toList (bucket := rev (filter predicate (fromList bucket)) @ toList bucket)))
       bucketIds (fromList, toList)"

subsection \<open>The heap operations, from the spec\<close>

text \<open>
  Modelled from the spec: the constructor \<open>Heap::Heap\<close> is declared in CustomHeap.h and
  defined elsewhere. A new heap has no page, no allocation and empty lists.
\<close>

definition Heap_new :: "CodePageAllocators \<Rightarrow> Heap" where
  "Heap_new cpa =
     \<lparr> codePageAllocators = cpa, pageRecords = [], buckets = (\<lambda>b. []), fullPages = (\<lambda>b. []),
       largeObjectAllocations = [], decommittedPages = [], decommittedLargeObjects = [] \<rparr>"

text \<open>
  Modelled from the spec: \<open>AutoSystemInfo::PageSize\<close> is not in CustomHeap.h. A page of the
  heap is "one OS virtual-memory page (typically 4 KiB) carved into 32 chunks" of 128 bytes.
\<close>

definition AutoSystemInfo_PageSize :: size_t where
  "AutoSystemInfo_PageSize = 4096"

text \<open>
  Modelled from the spec: \<open>GetBucketForSize\<close> is declared in CustomHeap.h and defined
  elsewhere. Spec 4.A: it "returns the bucket whose class size is the least power of two
  \<open>\<ge> max(128, bytes)\<close>, capped at 4096, or \<open>LargeObjectList\<close> if \<open>bytes > 4096\<close>".
\<close>

definition GetBucketForSize :: "size_t \<Rightarrow> BucketId" where
  "GetBucketForSize bytes =
     (if bytes > 4096 then LargeObjectList
      else if bytes > 2048 then Bucket4096
      else if bytes > 1024 then Bucket2048
      else if bytes > 512 then Bucket1024
      else if bytes > 256 then Bucket512
      else if bytes > 128 then Bucket256
      else SmallObjectList)"

text \<open>
  Modelled from the spec: the number of chunks that the allocation path of the heap, which
  is not in CustomHeap.h, takes for a request. Spec 4.A:
  "\<open>chunks_for_size(bytes) = ceil(bytes / 128)\<close>, minimum 1"; spec 4.E.1 and 4.E.2 use this
  count on the size of the request, so a request of 129 bytes takes two chunks. (The
  inline \<open>GetChunkSizeForBytes\<close> of the header divides with truncation; the two agree up to
  128 bytes and at every multiple of 128.)
\<close>

definition chunks_for_size :: "size_t \<Rightarrow> uint" where
  "chunks_for_size bytes =
     (if bytes \<le> ucast Page_Alignment then 1
      else ucast ((bytes - 1) div ucast Page_Alignment + 1))"

text \<open>
  Modelled from the spec: \<open>BVUnit::ClearRange\<close> and \<open>BVUnit::SetRange\<close> are not in
  CustomHeap.h. The spec marks the chunks of an allocation busy by clearing their bits and
  free by setting them to ones: \<open>length\<close> bits from \<open>index\<close> up.
\<close>

definition BVUnit_ClearRange :: "32 word \<Rightarrow> BVIndex \<Rightarrow> uint \<Rightarrow> 32 word" where
  "BVUnit_ClearRange w index len = w AND NOT (push_bit (unat index) (mask (unat len)))"

definition BVUnit_SetRange :: "32 word \<Rightarrow> BVIndex \<Rightarrow> uint \<Rightarrow> 32 word" where
  "BVUnit_SetRange w index len = w OR push_bit (unat index) (mask (unat len))"

text \<open>
  Modelled from the spec: \<open>Heap::GetIndexInPage\<close> is declared in CustomHeap.h and defined
  elsewhere. Spec 4.E.2: the chunk index of an address is \<open>(address - page.address) / 128\<close>.
\<close>

definition Heap_GetIndexInPage :: "Page \<Rightarrow> ptr \<Rightarrow> BVIndex" where
  "Heap_GetIndexInPage page addr = ucast ((addr - address page) div ucast Page_Alignment)"

text \<open>
  Modelled from the spec: \<open>DListBase\<close> is not in CustomHeap.h. The spec moves a page from one
  list to another and removes it from its list; \<open>unlink_page\<close> takes a page out of
  whichever list of an array holds it.
\<close>

definition unlink_page :: "nat \<Rightarrow> (BucketId \<Rightarrow> nat list) \<Rightarrow> (BucketId \<Rightarrow> nat list)" where
  "unlink_page p ls = (\<lambda>b. removeAll p (ls b))"

datatype AllocError = OutOfMemory | SecondaryExhausted | InvariantViolation

text \<open>
  Modelled from the spec: \<open>Heap::AllocInPage\<close> is declared in CustomHeap.h and defined
  elsewhere. Spec 4.E.1: "Find the first run of ones of length \<open>chunks_for_size(bytes)\<close> in
  \<open>page.free_bits\<close>; let its start index be \<open>i\<close>. Clear those bits (mark busy). If
  \<open>xdata_size > 0 \<or> pdata_count > 0\<close>, call \<open>alloc_secondary\<close> on the page's segment; on
  failure, roll back the bit clear and return null. Return an Allocation
  \<open>{ page, address = page.address + i*128, size = bytes, secondary }\<close>." The spec does not say
  what happens when the page has no such run (section 7: an invariant violation, asserted
  in debug builds); the model returns \<open>InvariantViolation\<close> and leaves the heap as it is. A
  null result is one of the errors. The move of the page to a full list that may follow a
  failure is made by the caller (\<open>Heap_AllocSmall\<close> below).
\<close>

definition Heap_AllocInPage ::
  "Heap \<Rightarrow> nat \<Rightarrow> size_t \<Rightarrow> ushort \<Rightarrow> ushort \<Rightarrow> (AllocError + Allocation) \<times> Heap" where
  "Heap_AllocInPage h p bytes pdataCount xdataSize =
     (case Heap_page h p of
        None \<Rightarrow> (Inl InvariantViolation, h)
      | Some page \<Rightarrow>
          (let len = chunks_for_size bytes;
               index = BVUnit_FirstStringOfOnes (freeBitVector page) len
           in if index = BVInvalidIndex then (Inl InvariantViolation, h)
              else
                (let busy = page \<lparr> freeBitVector :=
                              BVUnit_ClearRange (freeBitVector page) index len \<rparr>;
                     h1 = h \<lparr> pageRecords := (pageRecords h) [p := busy] \<rparr>;
                     addr = address page + ucast Page_Alignment * ucast index
                 in if xdataSize > 0 \<or> pdataCount > 0
                    then
                      (case CodePageAllocators_AllocSecondary (codePageAllocators h1)
                              (segment page) addr bytes pdataCount xdataSize of
                         (False, cpa) \<Rightarrow>
                           (Inl SecondaryExhausted,
                            h1 \<lparr> codePageAllocators := cpa,
                                 pageRecords := (pageRecords h1)
                                   [p := busy \<lparr> freeBitVector :=
                                           BVUnit_SetRange (freeBitVector busy) index len \<rparr>] \<rparr>)
                       | (True, cpa) \<Rightarrow>
                           (Inr \<lparr> owner = OwnerPage p, alloc_address = addr, alloc_size = bytes,
                                  xdata = Some (pdataCount, xdataSize) \<rparr>,
                            h1 \<lparr> codePageAllocators := cpa \<rparr>))
                    else
                      (Inr \<lparr> owner = OwnerPage p, alloc_address = addr, alloc_size = bytes,
                             xdata = None \<rparr>,
                       h1))))"

text \<open>
  Whether the page behind a \<open>Page*\<close> can serve the bucket (\<open>Page::CanAllocate\<close>), and whether
  it should be in a full list (\<open>ShouldBeInFullList\<close>).
\<close>

definition Heap_pageCanAllocate :: "Heap \<Rightarrow> BucketId \<Rightarrow> nat \<Rightarrow> bool" where
  "Heap_pageCanAllocate h b p =
     (case Heap_page h p of None \<Rightarrow> False | Some page \<Rightarrow> Page_CanAllocate page b)"

definition Heap_pageShouldBeInFullList :: "Heap \<Rightarrow> nat \<Rightarrow> bool" where
  "Heap_pageShouldBeInFullList h p =
     (case Heap_page h p of None \<Rightarrow> False | Some page \<Rightarrow> Heap_ShouldBeInFullList h page)"

text \<open>
  Modelled from the spec: \<open>Heap::FindPageToSplit\<close> is declared in CustomHeap.h and defined
  elsewhere. Spec 4.E.1, step 3: scan other buckets for a page that has "a contiguous run
  of length \<open>chunks(b)\<close>; if one is found, move it to \<open>buckets[b]\<close>, set its
  \<open>current_bucket = b\<close>". The spec leaves the direction of the scan open (section 9) and asks
  to keep its end-to-end scenario 3, \<open>alloc(256)\<close> then \<open>alloc(128)\<close> served by the same page:
  that is a page of a larger bucket split for a smaller request, so the buckets scanned
  are those above the target, nearest first. The test on a page is the \<open>can_allocate(b)\<close> of
  spec 4.B. The parameter \<open>findPreReservedHeapPages\<close> of the declaration is not described by
  the spec and is left out.
\<close>

definition Heap_FindPageToSplit :: "Heap \<Rightarrow> BucketId \<Rightarrow> nat option \<times> Heap" where
  "Heap_FindPageToSplit h targetBucket =
     (case find (Heap_pageCanAllocate h targetBucket)
             (concat (map (buckets h)
                (filter (\<lambda>b. BucketId_value targetBucket < BucketId_value b) bucketIds))) of
        None \<Rightarrow> (None, h)
      | Some p \<Rightarrow>
          (Some p,
           h \<lparr> pageRecords := (pageRecords h)
                  [p := (pageRecords h ! p) \<lparr> currentBucket := targetBucket \<rparr>],
               buckets := (unlink_page p (buckets h))
                  (targetBucket := p # removeAll p (buckets h targetBucket)) \<rparr>))"

text \<open>
  Modelled from the spec: \<open>Heap::AllocNewPage\<close> is declared in CustomHeap.h and defined
  elsewhere. Spec 4.E.1, step 4: "\<open>AllocNewPage(b)\<close> via D. If D returns null, alloc fails
  with OutOfMemory"; a page "is created when the Heap needs space for a bucket and none is
  available". One page is asked of \<open>CodePageAllocators::AllocPages\<close>, a record is made
  for it with the constructor and put on \<open>buckets[b]\<close>.
\<close>

definition Heap_AllocNewPage ::
  "Heap \<Rightarrow> BucketId \<Rightarrow> bool \<Rightarrow> bool \<Rightarrow> bool \<Rightarrow> nat option \<times> bool \<times> Heap" where
  "Heap_AllocNewPage h bucket canAllocInPreReservedHeapPageSegment isAnyJittedCode
       isAllJITCodeInPreReservedRegion =
     (case CodePageAllocators_AllocPages (codePageAllocators h) 1 0
             canAllocInPreReservedHeapPageSegment isAnyJittedCode
             isAllJITCodeInPreReservedRegion of
        (addr, pageSegment, flag, cpa) \<Rightarrow>
          if addr = 0 then (None, flag, h \<lparr> codePageAllocators := cpa \<rparr>)
          else
            (let p = length (pageRecords h)
             in (Some p, flag,
                 h \<lparr> codePageAllocators := cpa,
                     pageRecords := pageRecords h @ [Page_new addr pageSegment bucket],
                     buckets := (buckets h) (bucket := p # buckets h bucket) \<rparr>)))"

text \<open>
  Modelled from the spec: steps 2 to 4 of spec 4.E.1, the choice of the page for a request
  of bucket \<open>b\<close>. "Search \<open>buckets[b]\<close> for the first page whose \<open>can_allocate(b)\<close> is true.
  If none: try FindPageToSplit(b). If none: AllocNewPage(b) via D." The result tells where
  the page comes from, for the failure paths of \<open>Heap_AllocSmall\<close>.
\<close>

datatype PageOrigin = FromBucket | FromSplit | FromNewPage

definition Heap_FindPage ::
  "Heap \<Rightarrow> BucketId \<Rightarrow> bool \<Rightarrow> bool \<Rightarrow> bool \<Rightarrow> (nat \<times> PageOrigin) option \<times> bool \<times> Heap" where
  "Heap_FindPage h bucket canAllocInPreReservedHeapPageSegment isAnyJittedCode
       isAllJITCodeInPreReservedRegion =
     (case find (Heap_pageCanAllocate h bucket) (buckets h bucket) of
        Some p \<Rightarrow> (Some (p, FromBucket), isAllJITCodeInPreReservedRegion, h)
      | None \<Rightarrow>
          (case Heap_FindPageToSplit h bucket of
             (Some p, h1) \<Rightarrow> (Some (p, FromSplit), isAllJITCodeInPreReservedRegion, h1)
           | (None, h1) \<Rightarrow>
               (case Heap_AllocNewPage h1 bucket canAllocInPreReservedHeapPageSegment
                       isAnyJittedCode isAllJITCodeInPreReservedRegion of
                  (None, flag, h2) \<Rightarrow> (None, flag, h2)
                | (Some p, flag, h2) \<Rightarrow> (Some (p, FromNewPage), flag, h2))))"

text \<open>
  Modelled from the spec: spec 4.E.7, "each failure path must restore any partial mutation
  (bit clears, secondary-data reservations, list moves)". \<open>Heap_UndoFindPage h0 h p origin\<close>
  undoes in \<open>h\<close> the list move that \<open>Heap_FindPage\<close> made on the heap \<open>h0\<close>: a page that was
  split goes back to the list and the bucket it had; a page that was just obtained leaves
  \<open>buckets[b]\<close>, its record is dropped and it is released to the page allocators.
\<close>

definition Heap_UndoFindPage :: "Heap \<Rightarrow> Heap \<Rightarrow> nat \<Rightarrow> PageOrigin \<Rightarrow> Heap" where
  "Heap_UndoFindPage h0 h p origin =
     (case origin of
        FromBucket \<Rightarrow> h
      | FromSplit \<Rightarrow>
          h \<lparr> pageRecords := (pageRecords h)
                 [p := (pageRecords h ! p) \<lparr> currentBucket := currentBucket (pageRecords h0 ! p) \<rparr>],
              buckets := buckets h0 \<rparr>
      | FromNewPage \<Rightarrow>
          h \<lparr> codePageAllocators :=
                 CodePageAllocators_Release (codePageAllocators h)
                   (address (pageRecords h ! p)) 1 (segment (pageRecords h ! p)),
              pageRecords := take p (pageRecords h),
              buckets := buckets h0 \<rparr>)"

text \<open>
  Moving a page to a full list: it leaves the bucket list that holds it and becomes the
  head of \<open>fullPages[bucket]\<close>.
\<close>

definition Heap_MoveToFullList :: "Heap \<Rightarrow> nat \<Rightarrow> BucketId \<Rightarrow> Heap" where
  "Heap_MoveToFullList h p bucket =
     h \<lparr> buckets := unlink_page p (buckets h),
         fullPages := (fullPages h) (bucket := p # fullPages h bucket) \<rparr>"

text \<open>
  Modelled from the spec: what follows a secondary-data failure on a page that should be
  in a full list. Spec 4.E.1: the failure "may transition the page to full (secondary
  exhausted)"; section 7: "The page is moved to the full list and the allocation is
  retried on another page". A page that was split first goes back to the bucket it had
  (4.E.7) and is moved to the full list of that bucket; a page that was just obtained stays
  with the heap, on the full list of its bucket.
\<close>

definition Heap_RetirePage :: "Heap \<Rightarrow> Heap \<Rightarrow> nat \<Rightarrow> PageOrigin \<Rightarrow> Heap" where
  "Heap_RetirePage h0 h p origin =
     (let h1 = (case origin of
                  FromBucket \<Rightarrow> h
                | FromSplit \<Rightarrow> Heap_UndoFindPage h0 h p FromSplit
                | FromNewPage \<Rightarrow> h)
      in Heap_MoveToFullList h1 p (currentBucket (pageRecords h1 ! p)))"

text \<open>
  Modelled from the spec: the small-object path of \<open>Heap::Alloc\<close>, which is declared in
  CustomHeap.h and defined elsewhere. Spec 4.E.1: "2. let \<open>b = bucket_for_size(bytes)\<close>.
  Search \<open>buckets[b]\<close> for the first page whose \<open>can_allocate(b)\<close> is true. If found,
  AllocInPage. 3. If none: try FindPageToSplit(b); if one is found, then AllocInPage. 4. If
  none: AllocNewPage(b) via D. If D returns null, alloc fails with OutOfMemory. 5.
  Post-step: if after allocation the page has \<open>ShouldBeInFullList\<close> (no space or secondary
  exhausted), move it from \<open>buckets[b]\<close> to \<open>fullPages[b]\<close>." Section 7, for a failed
  secondary-data allocation: "The page is moved to the full list and the allocation is
  retried on another page; if none, surfaces as OOM." 4.E.7: a failure path restores the
  list moves. So, when \<open>AllocInPage\<close> fails: if the secondary data could not be allocated
  and the page should be in a full list, the page is retired to it (\<open>Heap_RetirePage\<close>) and
  the steps are taken again; otherwise the list move is undone (\<open>Heap_UndoFindPage\<close>) and the
  error is returned.

  The first argument bounds the number of attempts: every further attempt follows a page
  leaving the bucket lists for a full list, so one call makes at most as many attempts as
  there are pages on the bucket lists and pages that the allocators can still give, plus
  one (\<open>Heap_attempts\<close>); a larger bound gives the same result (\<open>AllocSmall_enough\<close>
  below).
\<close>

fun Heap_AllocSmall ::
  "nat \<Rightarrow> Heap \<Rightarrow> size_t \<Rightarrow> ushort \<Rightarrow> ushort \<Rightarrow> bool \<Rightarrow> bool \<Rightarrow> bool
     \<Rightarrow> (AllocError + Allocation) \<times> bool \<times> Heap" where
  "Heap_AllocSmall 0 h bytes pdataCount xdataSize canAllocInPreReservedHeapPageSegment
       isAnyJittedCode isAllJITCodeInPreReservedRegion =
     (Inl OutOfMemory, isAllJITCodeInPreReservedRegion, h)"
| "Heap_AllocSmall (Suc n) h bytes pdataCount xdataSize canAllocInPreReservedHeapPageSegment
       isAnyJittedCode isAllJITCodeInPreReservedRegion =
     (let bucket = GetBucketForSize bytes
      in case Heap_FindPage h bucket canAllocInPreReservedHeapPageSegment isAnyJittedCode
                isAllJITCodeInPreReservedRegion of
           (None, flag, h1) \<Rightarrow> (Inl OutOfMemory, flag, h1)
         | (Some (p, origin), flag, h1) \<Rightarrow>
             (case Heap_AllocInPage h1 p bytes pdataCount xdataSize of
                (Inr a, h2) \<Rightarrow>
                  (Inr a, flag,
                   if Heap_pageShouldBeInFullList h2 p then Heap_MoveToFullList h2 p bucket
                   else h2)
              | (Inl e, h2) \<Rightarrow>
                  if e = SecondaryExhausted \<and> Heap_pageShouldBeInFullList h2 p
                  then Heap_AllocSmall n (Heap_RetirePage h h2 p origin) bytes pdataCount
                         xdataSize canAllocInPreReservedHeapPageSegment isAnyJittedCode flag
                  else (Inl e, flag, Heap_UndoFindPage h h2 p origin)))"

definition Heap_attempts :: "Heap \<Rightarrow> nat" where
  "Heap_attempts h =
     Suc (sum_list (map (\<lambda>b. length (buckets h b)) bucketIds)
          + length (responses (pageAllocator (codePageAllocators h)))
          + length (responses (preReservedHeapPageAllocator (codePageAllocators h))))"

text \<open>
  Modelled from the spec: \<open>Heap::AllocLargeObject\<close> is declared in CustomHeap.h and defined
  elsewhere. Spec 4.E.4: "Compute \<open>pages = ceil(bytes / PAGE_SIZE)\<close>; on arithmetic overflow,
  fail. Call \<open>alloc_pages(pages)\<close> on D; on failure, fail. If secondary data requested, call
  \<open>alloc_secondary\<close>; on failure, release the pages and fail. Record in
  \<open>largeObjectAllocations\<close>." The page count is \<open>GetNumPagesForSize\<close> of the header, the pages
  come from \<open>CodePageAllocators::Alloc\<close>, and the size of the allocation is the pages
  obtained times the page size (spec 3: "a multiple of the OS page size").
\<close>

definition Heap_AllocLargeObject ::
  "Heap \<Rightarrow> size_t \<Rightarrow> ushort \<Rightarrow> ushort \<Rightarrow> bool \<Rightarrow> bool \<Rightarrow> bool
     \<Rightarrow> (AllocError + Allocation) \<times> bool \<times> Heap" where
  "Heap_AllocLargeObject h bytes pdataCount xdataSize canAllocInPreReservedHeapPageSegment
       isAnyJittedCode isAllJITCodeInPreReservedRegion =
     (let pages = Heap_GetNumPagesForSize AutoSystemInfo_PageSize bytes
      in if pages = 0 then (Inl OutOfMemory, isAllJITCodeInPreReservedRegion, h)
         else
           (case CodePageAllocators_Alloc (codePageAllocators h) pages 0
                   canAllocInPreReservedHeapPageSegment isAnyJittedCode
                   isAllJITCodeInPreReservedRegion of
              (addr, pages, seg, flag, cpa) \<Rightarrow>
                if addr = 0 then (Inl OutOfMemory, flag, h \<lparr> codePageAllocators := cpa \<rparr>)
                else if xdataSize > 0 \<or> pdataCount > 0
                then
                  (case CodePageAllocators_AllocSecondary cpa seg addr bytes pdataCount
                          xdataSize of
                     (False, cpa) \<Rightarrow>
                       (Inl SecondaryExhausted, flag,
                        h \<lparr> codePageAllocators := CodePageAllocators_Release cpa addr pages seg \<rparr>)
                   | (True, cpa) \<Rightarrow>
                       (let a = \<lparr> owner = OwnerLargeObject False seg, alloc_address = addr,
                                  alloc_size = pages * AutoSystemInfo_PageSize,
                                  xdata = Some (pdataCount, xdataSize) \<rparr>
                        in (Inr a, flag,
                            h \<lparr> codePageAllocators := cpa,
                                largeObjectAllocations := a # largeObjectAllocations h \<rparr>)))
                else
                  (let a = \<lparr> owner = OwnerLargeObject False seg, alloc_address = addr,
                             alloc_size = pages * AutoSystemInfo_PageSize, xdata = None \<rparr>
                   in (Inr a, flag,
                       h \<lparr> codePageAllocators := cpa,
                           largeObjectAllocations := a # largeObjectAllocations h \<rparr>))))"

text \<open>
  Modelled from the spec: \<open>Heap::Alloc\<close> is declared in CustomHeap.h and defined elsewhere.
  Spec 4.E.1: "1. If \<open>bytes > 4096\<close>: delegate to AllocLargeObject", else the steps of
  \<open>Heap_AllocSmall\<close>. The result is the allocation or the error, the flag
  \<open>*isAllJITCodeInPreReservedRegion\<close> and the heap after the call.
\<close>

definition Heap_Alloc ::
  "Heap \<Rightarrow> size_t \<Rightarrow> ushort \<Rightarrow> ushort \<Rightarrow> bool \<Rightarrow> bool \<Rightarrow> bool
     \<Rightarrow> (AllocError + Allocation) \<times> bool \<times> Heap" where
  "Heap_Alloc h bytes pdataCount xdataSize canAllocInPreReservedHeapPageSegment isAnyJittedCode
       isAllJITCodeInPreReservedRegion =
     (if bytes > ucast Page_MaxAllocationSize
      then Heap_AllocLargeObject h bytes pdataCount xdataSize
             canAllocInPreReservedHeapPageSegment isAnyJittedCode
             isAllJITCodeInPreReservedRegion
      else Heap_AllocSmall (Heap_attempts h) h bytes pdataCount xdataSize
             canAllocInPreReservedHeapPageSegment isAnyJittedCode
             isAllJITCodeInPreReservedRegion)"

text \<open>
  Modelled from the spec: \<open>Heap::FreeXdata\<close> is declared in CustomHeap.h and defined
  elsewhere. Spec 4.E.2 has \<open>Free\<close> "release secondary data if present", and invariant 4 of
  spec 3 keeps on the full lists only pages that have no space or whose segment cannot
  allocate secondary data. So the secondary data is released to its segment, and the pages
  of that segment that are on a full list and for which \<open>ShouldBeInFullList\<close> no longer
  holds go back to the bucket lists, with \<open>TransferPages\<close> of the header.
\<close>

definition Heap_FreeXdata :: "Heap \<Rightarrow> (ushort \<times> ushort) \<Rightarrow> ptr \<Rightarrow> Heap" where
  "Heap_FreeXdata h x seg =
     (let h1 = h \<lparr> codePageAllocators :=
                    CodePageAllocators_ReleaseSecondary (codePageAllocators h) x seg \<rparr>;
          (full, partial) =
            Heap_TransferPages
              (\<lambda>p. case Heap_page h1 p of
                      None \<Rightarrow> False
                    | Some page \<Rightarrow> segment page = seg \<and> \<not> Heap_ShouldBeInFullList h1 page)
              (fullPages h1) (buckets h1)
      in h1 \<lparr> fullPages := full, buckets := partial \<rparr>)"

text \<open>
  Modelled from the spec: \<open>Heap::FreeLargeObject\<close> is declared in CustomHeap.h and defined
  elsewhere. Spec 4.E.4: "Free reverses: release secondary, release/decommit pages, unlink
  record." An allocation that is not on \<open>largeObjectAllocations\<close> is refused.
\<close>

definition Heap_FreeLargeObject :: "Heap \<Rightarrow> Allocation \<Rightarrow> bool \<times> Heap" where
  "Heap_FreeLargeObject h a =
     (case owner a of
        OwnerPage p \<Rightarrow> (False, h)
      | OwnerLargeObject decommitted seg \<Rightarrow>
          if a \<in> set (largeObjectAllocations h)
          then
            (let h1 = (case xdata a of
                         None \<Rightarrow> h
                       | Some x \<Rightarrow> Heap_FreeXdata h x seg);
                 cpa = CodePageAllocators_Release (codePageAllocators h1) (alloc_address a)
                         (alloc_size a div AutoSystemInfo_PageSize) seg
             in (True, h1 \<lparr> codePageAllocators := cpa,
                           largeObjectAllocations := removeAll a (largeObjectAllocations h1) \<rparr>))
          else (False, h))"

text \<open>
  Modelled from the spec: \<open>Heap::Free\<close> is declared in CustomHeap.h and defined elsewhere.
  Spec 4.E.2: "If large: FreeLargeObject. Else: flip the owning page to writable, overwrite
  with the trap fill, then flip back. Clear the bits at \<open>(address - page.address)/128\<close> for
  \<open>chunks_for_size(size)\<close> to ones (mark free). Release secondary data if present. If the
  page was on \<open>fullPages\<close>, move it to \<open>buckets[page.current_bucket]\<close>. If the page is now
  empty, remove from bucket and either release pages to D or move to \<open>decommittedPages\<close>
  after \<open>decommit_pages\<close> + \<open>track_decommitted_pages\<close>. Policy: pages freed individually
  are decommitted." Memory contents and page protection are not part of the model, so the
  fill and the two protection flips leave no trace. The result is false for an allocation
  record that names no page of the heap.
\<close>

definition Heap_Free :: "Heap \<Rightarrow> Allocation \<Rightarrow> bool \<times> Heap" where
  "Heap_Free h a =
     (if Allocation_IsLargeAllocation a then Heap_FreeLargeObject h a
      else
        (case owner a of
           OwnerLargeObject decommitted seg \<Rightarrow> (False, h)
         | OwnerPage p \<Rightarrow>
             (case Heap_page h p of
                None \<Rightarrow> (False, h)
              | Some page \<Rightarrow>
                  (let len = chunks_for_size (alloc_size a);
                       index = Heap_GetIndexInPage page (alloc_address a);
                       freed = page \<lparr> freeBitVector :=
                                 BVUnit_SetRange (freeBitVector page) index len \<rparr>;
                       h1 = h \<lparr> pageRecords := (pageRecords h) [p := freed] \<rparr>;
                       h2 = (case xdata a of
                               None \<Rightarrow> h1
                             | Some x \<Rightarrow> Heap_FreeXdata h1 x (segment page));
                       wasFull = list_ex (\<lambda>b. p \<in> set (fullPages h2 b)) bucketIds;
                       h3 = h2 \<lparr> fullPages := unlink_page p (fullPages h2),
                                 buckets :=
                                   (if wasFull
                                    then (buckets h2) (currentBucket page :=
                                           p # buckets h2 (currentBucket page))
                                    else buckets h2) \<rparr>
                   in if Page_IsEmpty freed
                      then
                        (True,
                         h3 \<lparr> buckets := unlink_page p (buckets h3),
                              pageRecords := (pageRecords h3) [p := freed \<lparr> isDecommitted := True \<rparr>],
                              decommittedPages := p # decommittedPages h3,
                              codePageAllocators :=
                                CodePageAllocators_TrackDecommittedPages
                                  (CodePageAllocators_DecommitPages (codePageAllocators h3)
                                     (address page) 1 (segment page))
                                  (address page) 1 (segment page) \<rparr>)
                      else (True, h3)))))"

text \<open>
  Sequences of calls. \<open>Heap_alloc_sequence\<close> makes the small allocations asked by a list of
  requests \<open>(bytes, pdataCount, xdataSize, canAllocInPreReservedHeapPageSegment,
  isAnyJittedCode)\<close> one after the other and returns the allocations in the order they were
  made; it is \<open>None\<close> when a request is for more than 4096 bytes or an allocation fails.
  \<open>Heap_free_sequence\<close> frees a list of allocations in the order of the list; it is \<open>None\<close>
  when a \<open>Free\<close> returns false.
\<close>

fun Heap_alloc_sequence ::
  "Heap \<Rightarrow> bool \<Rightarrow> (size_t \<times> ushort \<times> ushort \<times> bool \<times> bool) list
     \<Rightarrow> (Allocation list \<times> bool \<times> Heap) option" where
  "Heap_alloc_sequence h flag [] = Some ([], flag, h)"
| "Heap_alloc_sequence h flag ((bytes, pdataCount, xdataSize, can, isJIT) # rs) =
     (if bytes > ucast Page_MaxAllocationSize then None
      else
        (case Heap_Alloc h bytes pdataCount xdataSize can isJIT flag of
           (Inl e, flag1, h1) \<Rightarrow> None
         | (Inr a, flag1, h1) \<Rightarrow>
             (case Heap_alloc_sequence h1 flag1 rs of
                None \<Rightarrow> None
              | Some (as, flag2, h2) \<Rightarrow> Some (a # as, flag2, h2))))"

fun Heap_free_sequence :: "Heap \<Rightarrow> Allocation list \<Rightarrow> Heap option" where
  "Heap_free_sequence h [] = Some h"
| "Heap_free_sequence h (a # as) =
     (case Heap_Free h a of
        (False, h1) \<Rightarrow> None
      | (True, h1) \<Rightarrow> Heap_free_sequence h1 as)"

subsection \<open>Views of the heap used by the properties\<close>

text \<open>The free bit vector and the address of every page record, in the order of the records.\<close>

definition page_bits :: "Heap \<Rightarrow> (32 word \<times> ptr) list" where
  "page_bits h = map (\<lambda>P. (freeBitVector P, address P)) (pageRecords h)"

text \<open>
  \<open>takes_chunks bs bytes a bs'\<close>: the allocation \<open>a\<close> of \<open>bytes\<close> bytes lies on a page \<open>p\<close> of
  \<open>bs\<close>, at a run of free chunks of that page, and \<open>bs'\<close> is \<open>bs\<close> with that run cleared.
\<close>

definition takes_chunks ::
  "(32 word \<times> ptr) list \<Rightarrow> size_t \<Rightarrow> Allocation \<Rightarrow> (32 word \<times> ptr) list \<Rightarrow> bool" where
  "takes_chunks bs bytes a bs' \<longleftrightarrow>
     (\<exists>p w ad i. owner a = OwnerPage p \<and> p < length bs \<and> bs ! p = (w, ad)
        \<and> run_of_ones w (unat i) (unat (chunks_for_size bytes)) \<and> unat i < 32
        \<and> alloc_address a = ad + ucast Page_Alignment * ucast i \<and> alloc_size a = bytes
        \<and> bs' = bs [p := (BVUnit_ClearRange w i (chunks_for_size bytes), ad)])"

definition all_free :: "(32 word \<times> ptr) list \<Rightarrow> bool" where
  "all_free bs \<longleftrightarrow> (\<forall>x \<in> set bs. fst x = 0xFFFFFFFF)"


text \<open>
  \<open>page_added h h'\<close>: \<open>h'\<close> is \<open>h\<close> after calls to the page allocators that left the segments
  as they were, with at most one new page, all its chunks free, at the head of a bucket list.
\<close>

definition page_added :: "Heap \<Rightarrow> Heap \<Rightarrow> bool" where
  "page_added h h' \<longleftrightarrow>
     (\<exists>cpa. segments cpa = segments (codePageAllocators h)
        \<and> CodePageAllocators_AllocXdata cpa = CodePageAllocators_AllocXdata (codePageAllocators h)
        \<and> (h' = h \<lparr> codePageAllocators := cpa \<rparr>
           \<or> (\<exists>addr seg b.
                 h' = h \<lparr> codePageAllocators := cpa,
                           pageRecords := pageRecords h @ [Page_new addr seg b],
                           buckets := (buckets h) (b := length (pageRecords h) # buckets h b) \<rparr>)))"



subsection \<open>Example runs\<close>

text \<open>
  A new heap over allocators with secondary data enabled, whose general allocator hands
  out first the page at \<open>0x10000\<close> and then the page at \<open>0x20000\<close>, both of segment \<open>7\<close>, and
  then fails; the pre-reserved allocator always fails; every segment has \<open>slots\<close> free
  secondary slots.
\<close>

definition example_response :: "ptr \<Rightarrow> ptr \<Rightarrow> PageAllocResponse" where
  "example_response addr seg = \<lparr> resp_address = addr, resp_segment = seg, resp_pages = 1 \<rparr>"

definition example_heap :: "nat \<Rightarrow> Heap" where
  "example_heap slots =
     Heap_new (example_allocators [example_response 0x10000 7, example_response 0x20000 7] [] slots)"











text \<open>Three small allocations on the new heap.\<close>

definition roundtrip_run_allocs :: "(Allocation list \<times> bool \<times> Heap) option" where
  "roundtrip_run_allocs =
     Heap_alloc_sequence (example_heap 2) True
       [(100, 1, 8, False, True), (300, 0, 0, False, True), (129, 0, 0, False, True)]"

section \<open>Properties\<close>

subsection \<open>Arithmetic helpers\<close>

lemma ceiling_nat_div:
  assumes "0 < d"
  shows "\<lceil>real n / real d\<rceil> = int ((n + d - 1) div d)"
proof -
  define q where "q = (n + d - 1) div d"
  have up: "n \<le> q * d"
  proof -
    have "n + d - 1 < q * d + d"
      unfolding q_def using assms
      by (metis add.commute div_mult_mod_eq add_less_cancel_left mod_less_divisor)
    then show ?thesis by simp
  qed
  have lo: "q * d < n + d"
  proof -
    have "q * d \<le> n + d - 1" unfolding q_def by simp
    then show ?thesis using assms by simp
  qed
  have "real n / real d \<le> real q"
    using up assms by (simp add: divide_le_eq flip: of_nat_mult)
  moreover have "real q - 1 < real n / real d"
  proof -
    have "real (q * d) < real (n + d)" using lo by (simp only: of_nat_less_iff)
    then have "(real q - 1) * real d < real n" by (simp add: algebra_simps)
    then show ?thesis using assms by (simp add: less_divide_eq)
  qed
  ultimately have "\<lceil>real n / real d\<rceil> = int q"
    by (intro ceiling_unique) simp_all
  then show ?thesis by (simp add: q_def)
qed

lemma unat_ucast_small:
  "unat (bytes::size_t) \<le> 4096 \<Longrightarrow> unat (ucast bytes :: uint) = unat bytes"
  by (simp add: unsigned_ucast_eq take_bit_nat_eq_self)

lemma div128_small:
  fixes n :: nat
  shows "n \<le> 128 \<Longrightarrow> 1 \<le> n \<Longrightarrow> (n + 127) div 128 = 1"
  by simp

lemma div128_multiple:
  fixes n :: nat
  shows "128 dvd n \<Longrightarrow> (n + 127) div 128 = n div 128"
  by (auto simp: dvd_def)

lemma div128_remainder:
  fixes n :: nat
  assumes "\<not> 128 dvd n"
  shows "(n + 127) div 128 = n div 128 + 1"
proof -
  define q r where "q = n div 128" and "r = n mod 128"
  have r0: "0 < r" using assms by (simp add: r_def dvd_eq_mod_eq_0)
  have r1: "r < 128" by (simp add: r_def)
  have n: "n = 128 * q + r" by (simp add: q_def r_def)
  have "(n + 127) div 128 = q + 1"
  proof (rule div_nat_eqI)
    show "128 * (q + 1) \<le> n + 127" using n r0 by simp
    show "n + 127 < 128 * Suc (q + 1)" using n r1 by simp
  qed
  then show ?thesis by (simp add: q_def)
qed

lemma unat_minus_one_64: "unat (- 1 :: size_t) = 2 ^ 64 - 1"
  by (simp add: unsigned_minus_1_eq_mask mask_eq_exp_minus_1)

lemma AllocSizeMath_Add_no_overflow:
  "unat l + unat r < 2 ^ 64 \<Longrightarrow> unat (AllocSizeMath_Add l r) = unat l + unat r"
  unfolding AllocSizeMath_Add_def Let_def
  by (auto simp: word_less_nat_alt unat_word_ariths)

lemma AllocSizeMath_Add_overflow:
  "2 ^ 64 \<le> unat l + unat r \<Longrightarrow> AllocSizeMath_Add l r = - 1"
  unfolding AllocSizeMath_Add_def Let_def
  apply (auto simp: word_less_nat_alt unat_plus_if')
  using unsigned_less[of r, where 'a=nat] by simp

subsection \<open>Bit vector helpers\<close>

lemma word32_all_ones_iff: "(w :: 32 word) = 0xFFFFFFFF \<longleftrightarrow> (\<forall>i<32. bit w i)"
proof -
  have "(0xFFFFFFFF :: 32 word) = - 1" by simp
  then show ?thesis
    by (auto simp: bit_eq_iff bit_simps)
qed

lemma word32_zero_iff: "(w :: 32 word) = 0 \<longleftrightarrow> (\<forall>i<32. \<not> bit w i)"
  by (auto simp: bit_eq_iff bit_simps dest: bit_imp_le_length)

lemma find_None_iff_run:
  "find (\<lambda>i. run_of_ones w i n) [0..<32] = None \<longleftrightarrow> \<not> (\<exists>i. run_of_ones w i n)"
proof -
  have "run_of_ones w i n \<Longrightarrow> i \<in> set [0..<32] \<or> (n = 0 \<and> i = 32)" for i
    by (auto simp: run_of_ones_def)
  moreover have "run_of_ones w 32 0 \<Longrightarrow> run_of_ones w 0 0"
    by (simp add: run_of_ones_def)
  ultimately show ?thesis
    unfolding find_None_iff by (metis atLeastLessThan_iff set_upt zero_less_numeral zero_le)
qed

lemma FirstStringOfOnes_invalid_iff:
  "BVUnit_FirstStringOfOnes w l = BVInvalidIndex \<longleftrightarrow> \<not> (\<exists>i. run_of_ones w i (unat l))"
proof (cases "find (\<lambda>i. run_of_ones w i (unat l)) [0..<32]")
  case None
  then show ?thesis
    using find_None_iff_run [of w "unat l"] by (simp add: BVUnit_FirstStringOfOnes_def)
next
  case (Some i)
  then have i: "i < 32" and r: "run_of_ones w i (unat l)"
    by (auto simp: find_Some_iff)
  have "(of_nat i :: 32 word) \<noteq> - 1"
  proof
    assume "(of_nat i :: 32 word) = - 1"
    then have "unat (of_nat i :: 32 word) = unat (- 1 :: 32 word)" by simp
    then show False using i by (simp add: unat_of_nat unsigned_minus_1_eq_mask mask_eq_exp_minus_1)
  qed
  then show ?thesis using Some r by (auto simp: BVUnit_FirstStringOfOnes_def BVInvalidIndex_def)
qed

text \<open>
  What \<open>Page::CanAllocate\<close> tests: a run of ones whose length is the ordinal of the bucket
  plus one.
\<close>

lemma CanAllocate_iff_run:
  "Page_CanAllocate p b \<longleftrightarrow>
     (\<exists>i. run_of_ones (freeBitVector p) i (unat (of_int (BucketId_value b + 1) :: uint)))"
  by (simp add: Page_CanAllocate_def FirstStringOfOnes_invalid_iff)

subsection \<open>C1: chunks for a request size\<close>

text \<open>
  C1, as stated, at 129 bytes: the request is within 1..4096, \<open>GetChunkSizeForBytes\<close>
  returns one chunk, and the ceiling of 129 / 128 is two.
\<close>

theorem GetChunkSizeForBytes_129_one_chunk:
  "1 \<le> unat (129::size_t) \<and> unat (129::size_t) \<le> 4096 \<and>
   Heap_GetChunkSizeForBytes 129 = 1 \<and> \<lceil>real (unat (129::size_t)) / 128\<rceil> = 2"
  by (simp add: Heap_GetChunkSizeForBytes_def Page_Alignment_def)

text \<open>
  C1 (amended): for every request size \<open>bytes\<close> with \<open>1 \<le> bytes \<le> 4096\<close>,
  \<open>GetChunkSizeForBytes\<close> returns the quotient \<open>bytes div 128\<close> rounded down, with a minimum
  of 1. This is the ceiling of \<open>bytes / 128\<close> when \<open>bytes \<le> 128\<close> or \<open>bytes\<close> is a multiple of
  128 (so for every bucket class size), and one less than the ceiling for every other size.
\<close>

theorem GetChunkSizeForBytes_floor:
  assumes "1 \<le> unat bytes" and "unat bytes \<le> 4096"
  shows "unat (Heap_GetChunkSizeForBytes bytes) = max 1 (unat bytes div 128)
       \<and> (unat bytes \<le> 128 \<or> 128 dvd unat bytes \<longrightarrow>
            int (unat (Heap_GetChunkSizeForBytes bytes)) = \<lceil>real (unat bytes) / 128\<rceil>)
       \<and> (128 < unat bytes \<and> \<not> 128 dvd unat bytes \<longrightarrow>
            int (unat (Heap_GetChunkSizeForBytes bytes)) = \<lceil>real (unat bytes) / 128\<rceil> - 1)"
proof -
  define n where "n = unat bytes"
  have fl: "unat (Heap_GetChunkSizeForBytes bytes) = max 1 (n div 128)"
    using assms unfolding n_def
    by (simp add: Heap_GetChunkSizeForBytes_def Page_Alignment_def word_less_nat_alt
        unat_div unat_ucast_small)
  have ce: "\<lceil>real n / 128\<rceil> = int ((n + 127) div 128)"
    using ceiling_nat_div [of 128 n] by simp
  have n1: "1 \<le> n" using assms(1) by (simp add: n_def)
  have a: "max 1 (n div 128) = (n + 127) div 128" if "n \<le> 128"
  proof (cases "n = 128")
    case True then show ?thesis by simp
  next
    case False
    then have "n div 128 = 0" using that by simp
    then show ?thesis using div128_small [OF that n1] by simp
  qed
  have b: "max 1 (n div 128) = (n + 127) div 128" if "128 dvd n"
  proof -
    have "128 \<le> n" using that n1 by (auto simp: dvd_def)
    then have "1 \<le> n div 128" by (simp add: div_greater_zero_iff Suc_le_eq)
    then show ?thesis using div128_multiple [OF that] by (simp add: max_def)
  qed
  have c: "int (max 1 (n div 128)) = int ((n + 127) div 128) - 1"
    if "128 < n" "\<not> 128 dvd n"
  proof -
    have "1 \<le> n div 128" using that(1) by (simp add: div_greater_zero_iff Suc_le_eq)
    then show ?thesis using div128_remainder [OF that(2)] by (simp add: max_def)
  qed
  have p1: "unat (Heap_GetChunkSizeForBytes bytes) = max 1 (unat bytes div 128)"
    using fl by (simp add: n_def)
  have p2: "unat bytes \<le> 128 \<or> 128 dvd unat bytes \<longrightarrow>
            int (unat (Heap_GetChunkSizeForBytes bytes)) = \<lceil>real (unat bytes) / 128\<rceil>"
    unfolding fl n_def [symmetric] ce using a b by (simp only: of_nat_eq_iff) blast
  have p3: "128 < unat bytes \<and> \<not> 128 dvd unat bytes \<longrightarrow>
            int (unat (Heap_GetChunkSizeForBytes bytes)) = \<lceil>real (unat bytes) / 128\<rceil> - 1"
    unfolding fl n_def [symmetric] ce using c by blast
  show ?thesis using p1 p2 p3 by (intro conjI)
qed

theorem GetChunkSizeForBytes_floor_witness:
  "1 \<le> unat (256::size_t) \<and> unat (256::size_t) \<le> 4096
   \<and> unat (Heap_GetChunkSizeForBytes 256) = 2
   \<and> 128 dvd unat (256::size_t) \<and> \<lceil>real (unat (256::size_t)) / 128\<rceil> = 2"
proof -
  have h1: "1 \<le> unat (256::size_t)" and h2: "unat (256::size_t) \<le> 4096" by simp_all
  have "unat (Heap_GetChunkSizeForBytes 256) = max 1 (unat (256::size_t) div 128)"
    using GetChunkSizeForBytes_floor [OF h1 h2] by (rule conjunct1)
  then show ?thesis by simp
qed

subsection \<open>C2: what CanAllocate tests\<close>

text \<open>
  C2, at a page of bucket \<open>Bucket512\<close> whose only free chunks are 0, 1 and 2 (free bit vector
  \<open>7\<close>): a 512-byte class needs four chunks and the vector has no run of four ones at any
  index, yet \<open>CanAllocate(Bucket512)\<close> is true, because it looks for a run of
  \<open>targetBucket + 1 = 3\<close> ones. \<open>GetFreeIndexForPage\<close>, which computes the run length from the
  byte size, finds no place for 512 bytes on the same page.
\<close>

theorem CanAllocate_Bucket512_run_of_three:
  "Page_CanAllocate (Page_new 0x10000 7 Bucket512 \<lparr> freeBitVector := 7 \<rparr>) Bucket512
   \<and> \<not> list_ex (\<lambda>i. run_of_ones 7 i 4) [0..<32]
   \<and> Heap_GetFreeIndexForPage (Page_new 0x10000 7 Bucket512 \<lparr> freeBitVector := 7 \<rparr>) 512
       = BVInvalidIndex"
  by code_simp

subsection \<open>C4: pages for a large request\<close>

text \<open>
  C4, as stated, at \<open>bytes = 2^64 - 1 - 4096\<close> with a page size of 4096: the addition does
  not overflow, but its result is the value \<open>(size_t)-1\<close> that \<open>GetNumPagesForSize\<close> reads as
  the overflow mark, so it returns 0 where the ceiling is \<open>2^52 - 1\<close>.
\<close>

theorem GetNumPagesForSize_sentinel:
  "unat (0xFFFFFFFFFFFFEFFF::size_t) + unat (4096::size_t) < 2 ^ 64
   \<and> Heap_GetNumPagesForSize 4096 0xFFFFFFFFFFFFEFFF = 0
   \<and> \<lceil>real (unat (0xFFFFFFFFFFFFEFFF::size_t)) / real (unat (4096::size_t))\<rceil>
       = 4503599627370495"
  by (simp add: Heap_GetNumPagesForSize_def AllocSizeMath_Add_def)

text \<open>
  C4 (amended): for a positive page size, \<open>GetNumPagesForSize(bytes)\<close> returns the ceiling of
  \<open>bytes / PageSize\<close> for every \<open>bytes\<close> with \<open>bytes + PageSize < 2^64 - 1\<close>, and returns 0
  when \<open>bytes + PageSize \<ge> 2^64 - 1\<close>, that is when the addition overflows or gives exactly
  \<open>(size_t)-1\<close>.
\<close>

theorem GetNumPagesForSize_ceiling:
  assumes "0 < PageSize"
  shows "(unat bytes + unat PageSize < 2 ^ 64 - 1 \<longrightarrow>
           int (unat (Heap_GetNumPagesForSize PageSize bytes))
             = \<lceil>real (unat bytes) / real (unat PageSize)\<rceil>)
       \<and> (2 ^ 64 - 1 \<le> unat bytes + unat PageSize \<longrightarrow>
           Heap_GetNumPagesForSize PageSize bytes = 0)"
proof (intro conjI impI)
  have ps: "0 < unat PageSize" using assms by (simp add: word_greater_zero_iff unat_gt_0)
  {
    assume lt: "unat bytes + unat PageSize < 2 ^ 64 - 1"
    then have sum: "unat (AllocSizeMath_Add bytes PageSize) = unat bytes + unat PageSize"
      by (intro AllocSizeMath_Add_no_overflow) simp
    then have ne: "AllocSizeMath_Add bytes PageSize \<noteq> - 1"
      using lt by (metis unat_minus_one_64 less_irrefl)
    have pos: "1 \<le> AllocSizeMath_Add bytes PageSize"
      using sum ps by (simp add: word_le_nat_alt)
    have "unat (AllocSizeMath_Add bytes PageSize - 1) = unat bytes + unat PageSize - 1"
      using sum pos by (simp add: unat_sub)
    then have "unat (Heap_GetNumPagesForSize PageSize bytes)
                 = (unat bytes + unat PageSize - 1) div unat PageSize"
      using ne by (simp add: Heap_GetNumPagesForSize_def Let_def unat_div)
    then show "int (unat (Heap_GetNumPagesForSize PageSize bytes))
             = \<lceil>real (unat bytes) / real (unat PageSize)\<rceil>"
      using ceiling_nat_div [OF ps, of "unat bytes"] by simp
  }
  {
    assume ge: "2 ^ 64 - 1 \<le> unat bytes + unat PageSize"
    have "AllocSizeMath_Add bytes PageSize = - 1"
    proof (cases "2 ^ 64 \<le> unat bytes + unat PageSize")
      case True
      then show ?thesis by (rule AllocSizeMath_Add_overflow)
    next
      case False
      then have eq: "unat bytes + unat PageSize = 2 ^ 64 - 1" using ge by simp
      then have "unat (AllocSizeMath_Add bytes PageSize) = unat (- 1 :: size_t)"
        using AllocSizeMath_Add_no_overflow [of bytes PageSize]
        by (simp add: unat_minus_one_64)
      then show ?thesis by (simp only: word_unat_eq_iff)
    qed
    then show "Heap_GetNumPagesForSize PageSize bytes = 0"
      by (simp add: Heap_GetNumPagesForSize_def)
  }
qed

theorem GetNumPagesForSize_ceiling_witness:
  "(0::size_t) < 4096 \<and> unat (8193::size_t) + unat (4096::size_t) < 2 ^ 64 - 1
   \<and> Heap_GetNumPagesForSize 4096 8193 = 3
   \<and> 2 ^ 64 - 1 \<le> unat (- 1 :: size_t) + unat (4096::size_t)
   \<and> Heap_GetNumPagesForSize 4096 (- 1) = 0"
proof -
  have h: "(0::size_t) < 4096" by simp
  have a: "unat (8193::size_t) + unat (4096::size_t) < 2 ^ 64 - 1" by simp
  have b: "2 ^ 64 - 1 \<le> unat (- 1 :: size_t) + unat (4096::size_t)"
    by (simp add: unat_minus_one_64)
  have "int (unat (Heap_GetNumPagesForSize 4096 8193))
          = \<lceil>real (unat (8193::size_t)) / real (unat (4096::size_t))\<rceil>"
    using GetNumPagesForSize_ceiling [OF h, of 8193] a by blast
  then have "uint (Heap_GetNumPagesForSize 4096 8193) = uint (3::size_t)" by simp
  then have c: "Heap_GetNumPagesForSize 4096 8193 = 3" by (simp only: word_uint_eq_iff)
  have d: "Heap_GetNumPagesForSize 4096 (- 1) = 0"
    using GetNumPagesForSize_ceiling [OF h, of "- 1"] b by blast
  show ?thesis using h a b c d by (intro conjI)
qed

subsection \<open>C5: large allocations and their page count\<close>

text \<open>
  C5: for every allocation \<open>a\<close>, \<open>IsLargeAllocation\<close> is true exactly when its size exceeds
  4096; and for a large allocation whose size is \<open>k\<close> times a positive page size, with
  \<open>k > 0\<close>, \<open>GetPageCount\<close> returns \<open>k\<close>, which is \<open>size / PageSize\<close>.
\<close>

theorem Allocation_large_and_page_count:
  "(Allocation_IsLargeAllocation a \<longleftrightarrow> 4096 < unat (alloc_size a))
   \<and> (Allocation_IsLargeAllocation a \<and> 0 < k \<and> 0 < unat PageSize
        \<and> unat (alloc_size a) = k * unat PageSize
      \<longrightarrow> (\<exists>n. Allocation_GetPageCount PageSize a = Some n \<and> unat n = k
               \<and> unat n = unat (alloc_size a) div unat PageSize))"
proof (intro conjI impI)
  show "Allocation_IsLargeAllocation a \<longleftrightarrow> 4096 < unat (alloc_size a)"
    by (simp add: Allocation_IsLargeAllocation_def Page_MaxAllocationSize_def
        word_less_nat_alt)
next
  assume h: "Allocation_IsLargeAllocation a \<and> 0 < k \<and> 0 < unat PageSize
        \<and> unat (alloc_size a) = k * unat PageSize"
  then have "unat (alloc_size a div PageSize) = k"
    by (simp add: unat_div)
  then show "\<exists>n. Allocation_GetPageCount PageSize a = Some n \<and> unat n = k
               \<and> unat n = unat (alloc_size a) div unat PageSize"
    using h by (simp add: Allocation_GetPageCount_def unat_div)
qed

theorem Allocation_large_and_page_count_witness:
  "Allocation_IsLargeAllocation \<lparr> owner = OwnerLargeObject False 7, alloc_address = 0x10000,
        alloc_size = 8192, xdata = None \<rparr>
   \<and> Allocation_GetPageCount 4096 \<lparr> owner = OwnerLargeObject False 7,
        alloc_address = 0x10000, alloc_size = 8192, xdata = None \<rparr> = Some 2"
proof -
  let ?a = "\<lparr> owner = OwnerLargeObject False 7, alloc_address = 0x10000,
        alloc_size = 8192, xdata = None \<rparr>"
  have l: "Allocation_IsLargeAllocation ?a"
    using Allocation_large_and_page_count [of ?a 2 4096] by simp
  have "\<exists>n. Allocation_GetPageCount 4096 ?a = Some n \<and> unat n = 2
          \<and> unat n = unat (alloc_size ?a) div unat (4096::size_t)"
    using Allocation_large_and_page_count [of ?a 2 4096] l by simp
  then obtain n where n: "Allocation_GetPageCount 4096 ?a = Some n" "unat n = 2" by blast
  from n(2) have "unat n = unat (2::size_t)" by simp
  then have "n = 2" by (simp only: word_unat_eq_iff)
  then show ?thesis using l n(1) by simp
qed

subsection \<open>C9: a fresh page, and the two predicates on the free bit vector\<close>

text \<open>
  C9: a page built by the constructor has the free bit vector \<open>0xFFFFFFFF\<close> and
  \<open>isDecommitted\<close> false, so \<open>IsEmpty\<close> holds and \<open>HasNoSpace\<close> does not; and for every
  page, \<open>IsEmpty\<close> holds exactly when all 32 bits are set, \<open>HasNoSpace\<close> exactly when none is.
\<close>

theorem Page_fresh_and_predicates:
  "freeBitVector (Page_new addr seg bucket) = 0xFFFFFFFF
   \<and> \<not> isDecommitted (Page_new addr seg bucket)
   \<and> Page_IsEmpty (Page_new addr seg bucket)
   \<and> \<not> Page_HasNoSpace (Page_new addr seg bucket)
   \<and> (Page_IsEmpty p \<longleftrightarrow> (\<forall>i<32. bit (freeBitVector p) i))
   \<and> (Page_HasNoSpace p \<longleftrightarrow> (\<forall>i<32. \<not> bit (freeBitVector p) i))"
  by (simp add: Page_new_def Page_IsEmpty_def Page_HasNoSpace_def BVUnit_IsFull_def
      BVUnit_IsEmpty_def word32_all_ones_iff [symmetric] word32_zero_iff [symmetric])

theorem Page_fresh_and_predicates_witness:
  "Page_IsEmpty (Page_new 0x10000 7 SmallObjectList)
   \<and> bit (freeBitVector (Page_new 0x10000 7 SmallObjectList)) 31
   \<and> \<not> Page_HasNoSpace (Page_new 0x10000 7 SmallObjectList)"
proof -
  let ?p = "Page_new 0x10000 7 SmallObjectList"
  have e: "Page_IsEmpty ?p" and n: "\<not> Page_HasNoSpace ?p"
    and a: "Page_IsEmpty ?p \<longleftrightarrow> (\<forall>i<32. bit (freeBitVector ?p) i)"
    using Page_fresh_and_predicates [of "0x10000" 7 SmallObjectList ?p] by blast+
  from e a have "bit (freeBitVector ?p) 31" by simp
  then show ?thesis using e n by blast
qed

subsection \<open>C3 and C10: routing between the two page allocators\<close>

lemmas cpa_call_defs = HeapPageAllocator_AllocPages_def HeapPageAllocator_Alloc_def
  allocator_called_def allocator_of_def new_calls_def pre_answer_def general_answer_def

lemma AllocPages_order:
  assumes "CodePageAllocators_AllocPages cpa pages seg can isJIT flag = (addr, seg', flag', cpa')"
  shows "can \<longrightarrow> (\<exists>rest. new_calls cpa cpa' = CallAllocPages PreReserved 1 # rest)"
    and "can \<and> pre_answer cpa \<noteq> 0 \<longrightarrow>
           addr = pre_answer cpa \<and> flag' = flag
           \<and> new_calls cpa cpa' = [CallAllocPages PreReserved 1]"
    and "CallAllocPages General 1 \<in> set (new_calls cpa cpa') \<longleftrightarrow> (\<not> can \<or> pre_answer cpa = 0)"
    and "flag' = (if isJIT \<and> CallAllocPages General 1 \<in> set (new_calls cpa cpa')
                  then False else flag)"
    and "addr = 0 \<longrightarrow> general_answer cpa = 0 \<and> (can \<longrightarrow> pre_answer cpa = 0)
           \<and> CallAllocPages General 1 \<in> set (new_calls cpa cpa')"
  using assms
  by (auto simp: CodePageAllocators_AllocPages_def cpa_call_defs Let_def split: if_splits)

lemma Alloc_order:
  assumes "CodePageAllocators_Alloc cpa pages seg can isJIT flag
             = (addr, pages', seg', flag', cpa')"
  shows "can \<longrightarrow> (\<exists>rest. new_calls cpa cpa' = CallAlloc PreReserved pages # rest)"
    and "can \<and> pre_answer cpa \<noteq> 0 \<longrightarrow>
           addr = pre_answer cpa \<and> flag' = flag
           \<and> new_calls cpa cpa' = [CallAlloc PreReserved pages]"
    and "CallAlloc General pages \<in> set (new_calls cpa cpa') \<longleftrightarrow> (\<not> can \<or> pre_answer cpa = 0)"
    and "flag' = (if isJIT \<and> CallAlloc General pages \<in> set (new_calls cpa cpa')
                  then False else flag)"
    and "addr = 0 \<longrightarrow> general_answer cpa = 0 \<and> (can \<longrightarrow> pre_answer cpa = 0)
           \<and> CallAlloc General pages \<in> set (new_calls cpa cpa')"
  using assms
  by (auto simp: CodePageAllocators_Alloc_def cpa_call_defs Let_def split: if_splits)

text \<open>
  C3, as stated, where both allocators fail and the code is jitted: \<open>AllocPages\<close> returns
  \<open>nullptr\<close>, so no allocation was served by the general allocator, and the flag, true
  before the call, is false after it.
\<close>

theorem AllocPages_flag_cleared_without_allocation:
  "fst (CodePageAllocators_AllocPages (example_allocators [] [] 0) 1 0 True True True) = 0
   \<and> \<not> fst (snd (snd
          (CodePageAllocators_AllocPages (example_allocators [] [] 0) 1 0 True True True)))"
  by (simp add: CodePageAllocators_AllocPages_def example_allocators_def cpa_call_defs
      next_response_def)

text \<open>
  C3 (amended): for every call of \<open>AllocPages\<close> (first conjunct) and of \<open>Alloc\<close> (second
  conjunct): if \<open>canAllocInPreReservedHeapPageSegment\<close> is true the pre-reserved allocator is
  called first, and when it returns an address that address is the result, the flag is
  unchanged and the general allocator is not called; the general allocator is called
  exactly when the pre-reserved attempt yielded no address (it failed or was not made);
  the flag after the call is false when \<open>isAnyJittedCode\<close> is true and the general allocator
  was called, whether or not that call succeeded, and is unchanged otherwise; and
  \<open>nullptr\<close> is returned only if the general allocator was called and failed and the
  pre-reserved allocator, when it was tried, failed too.
\<close>

theorem CodePageAllocators_alloc_routing:
  "(CodePageAllocators_AllocPages cpa pages seg can isJIT flag = (addr, seg', flag', cpa') \<longrightarrow>
      (can \<longrightarrow> (\<exists>rest. new_calls cpa cpa' = CallAllocPages PreReserved 1 # rest))
    \<and> (can \<and> pre_answer cpa \<noteq> 0 \<longrightarrow>
           addr = pre_answer cpa \<and> flag' = flag
           \<and> new_calls cpa cpa' = [CallAllocPages PreReserved 1])
    \<and> (CallAllocPages General 1 \<in> set (new_calls cpa cpa') \<longleftrightarrow> (\<not> can \<or> pre_answer cpa = 0))
    \<and> flag' = (if isJIT \<and> CallAllocPages General 1 \<in> set (new_calls cpa cpa')
                 then False else flag)
    \<and> (addr = 0 \<longrightarrow> general_answer cpa = 0 \<and> (can \<longrightarrow> pre_answer cpa = 0)
           \<and> CallAllocPages General 1 \<in> set (new_calls cpa cpa')))
   \<and> (CodePageAllocators_Alloc cpa pages seg can isJIT flag = (addr2, pages2, seg2, flag2, cpa2)
        \<longrightarrow>
      (can \<longrightarrow> (\<exists>rest. new_calls cpa cpa2 = CallAlloc PreReserved pages # rest))
    \<and> (can \<and> pre_answer cpa \<noteq> 0 \<longrightarrow>
           addr2 = pre_answer cpa \<and> flag2 = flag
           \<and> new_calls cpa cpa2 = [CallAlloc PreReserved pages])
    \<and> (CallAlloc General pages \<in> set (new_calls cpa cpa2) \<longleftrightarrow> (\<not> can \<or> pre_answer cpa = 0))
    \<and> flag2 = (if isJIT \<and> CallAlloc General pages \<in> set (new_calls cpa cpa2)
                 then False else flag)
    \<and> (addr2 = 0 \<longrightarrow> general_answer cpa = 0 \<and> (can \<longrightarrow> pre_answer cpa = 0)
           \<and> CallAlloc General pages \<in> set (new_calls cpa cpa2)))"
proof (rule conjI; rule impI)
  assume r: "CodePageAllocators_AllocPages cpa pages seg can isJIT flag
               = (addr, seg', flag', cpa')"
  show "(can \<longrightarrow> (\<exists>rest. new_calls cpa cpa' = CallAllocPages PreReserved 1 # rest))
    \<and> (can \<and> pre_answer cpa \<noteq> 0 \<longrightarrow>
           addr = pre_answer cpa \<and> flag' = flag
           \<and> new_calls cpa cpa' = [CallAllocPages PreReserved 1])
    \<and> (CallAllocPages General 1 \<in> set (new_calls cpa cpa') \<longleftrightarrow> (\<not> can \<or> pre_answer cpa = 0))
    \<and> flag' = (if isJIT \<and> CallAllocPages General 1 \<in> set (new_calls cpa cpa')
                 then False else flag)
    \<and> (addr = 0 \<longrightarrow> general_answer cpa = 0 \<and> (can \<longrightarrow> pre_answer cpa = 0)
           \<and> CallAllocPages General 1 \<in> set (new_calls cpa cpa'))"
    using AllocPages_order [OF r] by (intro conjI)
next
  assume r: "CodePageAllocators_Alloc cpa pages seg can isJIT flag
               = (addr2, pages2, seg2, flag2, cpa2)"
  show "(can \<longrightarrow> (\<exists>rest. new_calls cpa cpa2 = CallAlloc PreReserved pages # rest))
    \<and> (can \<and> pre_answer cpa \<noteq> 0 \<longrightarrow>
           addr2 = pre_answer cpa \<and> flag2 = flag
           \<and> new_calls cpa cpa2 = [CallAlloc PreReserved pages])
    \<and> (CallAlloc General pages \<in> set (new_calls cpa cpa2) \<longleftrightarrow> (\<not> can \<or> pre_answer cpa = 0))
    \<and> flag2 = (if isJIT \<and> CallAlloc General pages \<in> set (new_calls cpa cpa2)
                 then False else flag)
    \<and> (addr2 = 0 \<longrightarrow> general_answer cpa = 0 \<and> (can \<longrightarrow> pre_answer cpa = 0)
           \<and> CallAlloc General pages \<in> set (new_calls cpa cpa2))"
    using Alloc_order [OF r] by (intro conjI)
qed

theorem CodePageAllocators_alloc_routing_witness:
  "CodePageAllocators_AllocPages
      (example_allocators [] [\<lparr> resp_address = 0x20000, resp_segment = 9, resp_pages = 1 \<rparr>] 0)
      5 0 True True True
     = (0x20000, 9, True, (example_allocators [] [] 0) \<lparr> calls := [CallAllocPages PreReserved 1] \<rparr>)
   \<and> pre_answer (example_allocators [] [\<lparr> resp_address = 0x20000, resp_segment = 9, resp_pages = 1 \<rparr>] 0) = 0x20000
   \<and> CallAllocPages General 1 \<notin> set (new_calls (example_allocators [] [\<lparr> resp_address = 0x20000, resp_segment = 9, resp_pages = 1 \<rparr>] 0)
          ((example_allocators [] [] 0) \<lparr> calls := [CallAllocPages PreReserved 1] \<rparr>))
   \<and> CodePageAllocators_Alloc (example_allocators [] [] 0) 5 0 True True True
     = (0, 5, 0, False, (example_allocators [] [] 0) \<lparr> calls := [CallAlloc PreReserved 5, CallAlloc General 5] \<rparr>)
   \<and> general_answer (example_allocators [] [] 0) = 0
   \<and> CallAlloc General 5 \<in> set (new_calls (example_allocators [] [] 0)
         ((example_allocators [] [] 0) \<lparr> calls := [CallAlloc PreReserved 5, CallAlloc General 5] \<rparr>))"
proof -
  let ?c1 = "example_allocators [] [\<lparr> resp_address = 0x20000, resp_segment = 9, resp_pages = 1 \<rparr>] 0"
  let ?c1' = "(example_allocators [] [] 0) \<lparr> calls := [CallAllocPages PreReserved 1] \<rparr>"
  let ?c2 = "example_allocators [] [] 0"
  let ?c2' = "(example_allocators [] [] 0) \<lparr> calls := [CallAlloc PreReserved 5, CallAlloc General 5] \<rparr>"
  have e1: "CodePageAllocators_AllocPages ?c1 5 0 True True True = (0x20000, 9, True, ?c1')"
    by (simp add: CodePageAllocators_AllocPages_def example_allocators_def cpa_call_defs
        next_response_def)
  have e2: "CodePageAllocators_Alloc ?c2 5 0 True True True = (0, 5, 0, False, ?c2')"
    by (simp add: CodePageAllocators_Alloc_def example_allocators_def cpa_call_defs
        next_response_def)
  have p: "pre_answer ?c1 = 0x20000"
    by (simp add: pre_answer_def example_allocators_def next_response_def)
  note t1 = CodePageAllocators_alloc_routing [of ?c1 5 0 True True True "0x20000" 9 True ?c1',
      THEN conjunct1, rule_format, OF e1]
  note t2 = CodePageAllocators_alloc_routing [of ?c2 5 0 True True True _ _ _ _ 0 5 0 False ?c2',
      THEN conjunct2, rule_format, OF e2]
  have a: "CallAllocPages General 1 \<notin> set (new_calls ?c1 ?c1')"
    using t1 p by simp
  have b: "general_answer ?c2 = 0" using t2 by simp
  have c: "CallAlloc General 5 \<in> set (new_calls ?c2 ?c2')" using t2 by simp
  show ?thesis using e1 e2 p a b c by (intro conjI)
qed

text \<open>
  C10: whatever its \<open>pages\<close> argument, \<open>AllocPages\<close> behaves as with \<open>pages = 1\<close>, and the calls
  it makes to the underlying allocators are one request for one page to the pre-reserved
  allocator, or one to the general allocator, or the first followed by the second; each
  asks for exactly one page.
\<close>

theorem AllocPages_requests_one_page:
  "CodePageAllocators_AllocPages cpa pages seg can isJIT flag
     = CodePageAllocators_AllocPages cpa 1 seg can isJIT flag
   \<and> new_calls cpa (snd (snd (snd (CodePageAllocators_AllocPages cpa pages seg can isJIT flag))))
       \<in> {[CallAllocPages PreReserved 1], [CallAllocPages General 1],
          [CallAllocPages PreReserved 1, CallAllocPages General 1]}"
  by (auto simp: CodePageAllocators_AllocPages_def cpa_call_defs Let_def split: if_splits)

subsection \<open>The heap operations\<close>

lemma FirstStringOfOnes_run:
  assumes "BVUnit_FirstStringOfOnes w l \<noteq> BVInvalidIndex"
  shows "run_of_ones w (unat (BVUnit_FirstStringOfOnes w l)) (unat l)"
    and "unat (BVUnit_FirstStringOfOnes w l) < 32"
proof -
  obtain i where f: "find (\<lambda>i. run_of_ones w i (unat l)) [0..<32] = Some i"
    using assms by (auto simp: BVUnit_FirstStringOfOnes_def split: option.splits)
  then have i: "i < 32" and r: "run_of_ones w i (unat l)"
    by (auto simp: find_Some_iff)
  have eq: "BVUnit_FirstStringOfOnes w l = of_nat i"
    using f by (simp add: BVUnit_FirstStringOfOnes_def)
  have u: "unat (of_nat i :: 32 word) = i"
    using i by (simp add: unat_of_nat)
  show "run_of_ones w (unat (BVUnit_FirstStringOfOnes w l)) (unat l)"
    using r eq u by simp
  show "unat (BVUnit_FirstStringOfOnes w l) < 32"
    using i eq u by simp
qed

lemma run_of_ones_bits:
  "run_of_ones w i n \<Longrightarrow> i \<le> k \<Longrightarrow> k < i + n \<Longrightarrow> bit w k"
  by (auto simp: run_of_ones_def list_all_iff)

lemma SetRange_ClearRange:
  assumes "run_of_ones w (unat i) (unat l)"
  shows "BVUnit_SetRange (BVUnit_ClearRange w i l) i l = w"
  unfolding BVUnit_SetRange_def BVUnit_ClearRange_def
  using run_of_ones_bits [OF assms]
  by (auto simp: bit_eq_iff bit_simps)

lemma GetIndexInPage_roundtrip:
  assumes "unat (i :: BVIndex) < 32"
  shows "Heap_GetIndexInPage page (address page + ucast Page_Alignment * ucast i) = i"
proof -
  have u: "unat (ucast i :: size_t) = unat i"
    using assms by (simp add: unsigned_ucast_eq take_bit_nat_eq_self)
  have m: "unat ((128 :: size_t) * ucast i) = 128 * unat i"
    using assms u by (simp add: unat_word_ariths)
  have "unat (((128 :: size_t) * ucast i) div 128) = unat (ucast i :: size_t)"
    by (simp add: unat_div m u)
  then have "((128 :: size_t) * ucast i) div 128 = ucast i"
    by (simp only: word_unat_eq_iff)
  moreover have "(ucast (ucast i :: size_t) :: BVIndex) = i"
    by (rule bit_word_eqI) (auto simp: bit_simps dest: bit_imp_le_length)
  ultimately show ?thesis
    by (simp add: Heap_GetIndexInPage_def Page_Alignment_def)
qed

lemma AllocSecondary_result:
  assumes "CodePageAllocators_AllocSecondary cpa seg fs fz pd xd = (ok, cpa')"
  shows "\<not> ok \<Longrightarrow> cpa' = cpa"
    and "pageAllocator cpa' = pageAllocator cpa"
    and "preReservedHeapPageAllocator cpa' = preReservedHeapPageAllocator cpa"
    and "calls cpa' = calls cpa"
    and "secondaryFree (segments cpa' s) \<le> secondaryFree (segments cpa s)"
    and "IsInPreReservedHeapPageAllocator (segments cpa' s) = IsInPreReservedHeapPageAllocator (segments cpa s)"
  using assms
  by (auto simp: CodePageAllocators_AllocSecondary_def HeapPageAllocator_AllocSecondary_def
      Let_def split: if_splits)

lemma Heap_page_Some:
  "Heap_page h p = Some page \<longleftrightarrow> p < length (pageRecords h) \<and> page = pageRecords h ! p"
  by (auto simp: Heap_page_def)

lemma AllocInPage_Some:
  assumes "Heap_page h p = Some page"
    and "len = chunks_for_size bytes"
    and "i = BVUnit_FirstStringOfOnes (freeBitVector page) len"
  shows "Heap_AllocInPage h p bytes pd xd =
     (if i = BVInvalidIndex then (Inl InvariantViolation, h)
      else if xd > 0 \<or> pd > 0
      then (case CodePageAllocators_AllocSecondary (codePageAllocators h) (segment page)
                   (address page + ucast Page_Alignment * ucast i) bytes pd xd of
              (False, cpa) \<Rightarrow>
                (Inl SecondaryExhausted,
                 h \<lparr> codePageAllocators := cpa,
                     pageRecords := (pageRecords h)
                       [p := page \<lparr> freeBitVector :=
                               BVUnit_SetRange (BVUnit_ClearRange (freeBitVector page) i len) i len \<rparr>] \<rparr>)
            | (True, cpa) \<Rightarrow>
                (Inr \<lparr> owner = OwnerPage p,
                       alloc_address = address page + ucast Page_Alignment * ucast i,
                       alloc_size = bytes, xdata = Some (pd, xd) \<rparr>,
                 h \<lparr> codePageAllocators := cpa,
                     pageRecords := (pageRecords h)
                       [p := page \<lparr> freeBitVector :=
                               BVUnit_ClearRange (freeBitVector page) i len \<rparr>] \<rparr>))
      else (Inr \<lparr> owner = OwnerPage p,
                  alloc_address = address page + ucast Page_Alignment * ucast i,
                  alloc_size = bytes, xdata = None \<rparr>,
            h \<lparr> pageRecords := (pageRecords h)
                  [p := page \<lparr> freeBitVector :=
                          BVUnit_ClearRange (freeBitVector page) i len \<rparr>] \<rparr>))"
  by (simp add: Heap_AllocInPage_def Let_def assms split: prod.splits bool.splits)

lemma AllocInPage_fail:
  assumes "Heap_AllocInPage h p bytes pd xd = (Inl e, h')"
  shows "h' = h"
proof (cases "Heap_page h p")
  case None
  then show ?thesis using assms by (simp add: Heap_AllocInPage_def)
next
  case (Some page)
  then have p: "p < length (pageRecords h)" and pg: "page = pageRecords h ! p"
    by (simp_all add: Heap_page_Some)
  define len where "len = chunks_for_size bytes"
  define i where "i = BVUnit_FirstStringOfOnes (freeBitVector page) len"
  note u = AllocInPage_Some [OF Some len_def i_def, of pd xd]
  show ?thesis
  proof (cases "i = BVInvalidIndex")
    case True
    then show ?thesis using assms u by simp
  next
    case False
    then have run: "run_of_ones (freeBitVector page) (unat i) (unat len)"
      using FirstStringOfOnes_run(1) [of "freeBitVector page" len]
      by (simp add: i_def)
    have undo: "BVUnit_SetRange (BVUnit_ClearRange (freeBitVector page) i len) i len
                  = freeBitVector page"
      by (rule SetRange_ClearRange [OF run])
    show ?thesis
    proof (cases "xd > 0 \<or> pd > 0")
      case nosec: False
      then show ?thesis using assms u False by simp
    next
      case True
      obtain ok cpa where s: "CodePageAllocators_AllocSecondary (codePageAllocators h) (segment page)
          (address page + ucast Page_Alignment * ucast i) bytes pd xd = (ok, cpa)"
        by (cases "CodePageAllocators_AllocSecondary (codePageAllocators h) (segment page)
          (address page + ucast Page_Alignment * ucast i) bytes pd xd")
      have ok: "\<not> ok" using assms u False True s
        by (cases ok) auto
      then have cpa: "cpa = codePageAllocators h" using AllocSecondary_result(1) [OF s] by simp
      have "h' = h \<lparr> codePageAllocators := codePageAllocators h,
                     pageRecords := (pageRecords h) [p := page] \<rparr>"
        using assms u False True s ok cpa undo by simp
      then show ?thesis using pg by simp
    qed
  qed
qed

text \<open>
  Which error \<open>AllocInPage\<close> returns: \<open>SecondaryExhausted\<close> exactly when the page has the run
  and the secondary allocation was asked for and failed.
\<close>

lemma AllocInPage_SecondaryExhausted:
  assumes "Heap_AllocInPage h p bytes pd xd = (Inl SecondaryExhausted, h')"
  shows "\<exists>page. Heap_page h p = Some page
           \<and> BVUnit_FirstStringOfOnes (freeBitVector page) (chunks_for_size bytes) \<noteq> BVInvalidIndex"
proof (cases "Heap_page h p")
  case None
  then show ?thesis using assms by (simp add: Heap_AllocInPage_def)
next
  case (Some page)
  note u = AllocInPage_Some [OF Some refl refl, of bytes pd xd]
  show ?thesis using assms u Some by (auto split: if_splits)
qed

lemma AllocInPage_ok:
  assumes "Heap_AllocInPage h p bytes pd xd = (Inr a, h')"
  obtains page i cpa' where
    "p < length (pageRecords h)" "page = pageRecords h ! p"
    "i = BVUnit_FirstStringOfOnes (freeBitVector page) (chunks_for_size bytes)"
    "i \<noteq> BVInvalidIndex"
    "a = \<lparr> owner = OwnerPage p, alloc_address = address page + ucast Page_Alignment * ucast i,
           alloc_size = bytes, xdata = (if xd > 0 \<or> pd > 0 then Some (pd, xd) else None) \<rparr>"
    "h' = h \<lparr> pageRecords := (pageRecords h)
               [p := page \<lparr> freeBitVector := BVUnit_ClearRange (freeBitVector page) i
                                (chunks_for_size bytes) \<rparr>],
             codePageAllocators := cpa' \<rparr>"
    "cpa' = codePageAllocators h
     \<or> CodePageAllocators_AllocSecondary (codePageAllocators h) (segment page)
          (address page + ucast Page_Alignment * ucast i) bytes pd xd = (True, cpa')"
proof (cases "Heap_page h p")
  case None
  then show ?thesis using assms by (simp add: Heap_AllocInPage_def)
next
  case (Some page)
  then have p: "p < length (pageRecords h)" and pg: "page = pageRecords h ! p"
    by (simp_all add: Heap_page_Some)
  let ?i = "BVUnit_FirstStringOfOnes (freeBitVector page) (chunks_for_size bytes)"
  note u = AllocInPage_Some [OF Some refl refl, of bytes pd xd]
  have i: "?i \<noteq> BVInvalidIndex"
    using assms u by (auto split: if_splits)
  show ?thesis
  proof (cases "xd > 0 \<or> pd > 0")
    case False
    have "a = \<lparr> owner = OwnerPage p, alloc_address = address page + ucast Page_Alignment * ucast ?i,
           alloc_size = bytes, xdata = None \<rparr>"
      and "h' = h \<lparr> pageRecords := (pageRecords h)
               [p := page \<lparr> freeBitVector := BVUnit_ClearRange (freeBitVector page) ?i
                                (chunks_for_size bytes) \<rparr>] \<rparr>"
      using assms u i False by auto
    then show ?thesis
      using that [of page ?i "codePageAllocators h"] p pg i False by simp
  next
    case True
    obtain ok cpa where s: "CodePageAllocators_AllocSecondary (codePageAllocators h) (segment page)
        (address page + ucast Page_Alignment * ucast ?i) bytes pd xd = (ok, cpa)"
      by (cases "CodePageAllocators_AllocSecondary (codePageAllocators h) (segment page)
        (address page + ucast Page_Alignment * ucast ?i) bytes pd xd")
    have ok: "ok" using assms u i True s by (cases ok) auto
    have "a = \<lparr> owner = OwnerPage p, alloc_address = address page + ucast Page_Alignment * ucast ?i,
           alloc_size = bytes, xdata = Some (pd, xd) \<rparr>"
      and "h' = h \<lparr> pageRecords := (pageRecords h)
               [p := page \<lparr> freeBitVector := BVUnit_ClearRange (freeBitVector page) ?i
                                (chunks_for_size bytes) \<rparr>],
             codePageAllocators := cpa \<rparr>"
      using assms u i True s ok by auto
    then show ?thesis
      using that [of page ?i cpa] p pg i True s ok by simp
  qed
qed

lemma page_bits_nth:
  "p < length (pageRecords h) \<Longrightarrow>
   page_bits h ! p = (freeBitVector (pageRecords h ! p), address (pageRecords h ! p))"
  by (simp add: page_bits_def)

lemma length_page_bits [simp]: "length (page_bits h) = length (pageRecords h)"
  by (simp add: page_bits_def)

lemma page_bits_other_fields [simp]:
  "page_bits (h \<lparr> codePageAllocators := c \<rparr>) = page_bits h"
  "page_bits (h \<lparr> buckets := b \<rparr>) = page_bits h"
  "page_bits (h \<lparr> fullPages := f \<rparr>) = page_bits h"
  "page_bits (h \<lparr> largeObjectAllocations := l \<rparr>) = page_bits h"
  "page_bits (h \<lparr> decommittedPages := d \<rparr>) = page_bits h"
  "page_bits (h \<lparr> decommittedLargeObjects := dl \<rparr>) = page_bits h"
  by (simp_all add: page_bits_def)

lemma AllocInPage_takes_chunks:
  assumes "Heap_AllocInPage h p bytes pd xd = (Inr a, h')"
  shows "takes_chunks (page_bits h) bytes a (page_bits h')"
proof -
  from assms obtain page i cpa' where
    p: "p < length (pageRecords h)" and pg: "page = pageRecords h ! p"
    and i: "i = BVUnit_FirstStringOfOnes (freeBitVector page) (chunks_for_size bytes)" "i \<noteq> BVInvalidIndex"
    and a: "a = \<lparr> owner = OwnerPage p, alloc_address = address page + ucast Page_Alignment * ucast i,
           alloc_size = bytes, xdata = (if xd > 0 \<or> pd > 0 then Some (pd, xd) else None) \<rparr>"
    and h': "h' = h \<lparr> pageRecords := (pageRecords h)
               [p := page \<lparr> freeBitVector := BVUnit_ClearRange (freeBitVector page) i
                                (chunks_for_size bytes) \<rparr>],
             codePageAllocators := cpa' \<rparr>"
    by (rule AllocInPage_ok)
  have run: "run_of_ones (freeBitVector page) (unat i) (unat (chunks_for_size bytes))"
    and lt: "unat i < 32"
    using FirstStringOfOnes_run [of "freeBitVector page" "chunks_for_size bytes"] i
    by simp_all
  have "page_bits h' = (page_bits h) [p := (BVUnit_ClearRange (freeBitVector page) i
                                (chunks_for_size bytes), address page)]"
    using p by (simp add: h' page_bits_def map_update)
  then show ?thesis
    unfolding takes_chunks_def
    using p pg run lt a page_bits_nth [OF p]
    by (intro exI [of _ p] exI [of _ "freeBitVector page"] exI [of _ "address page"] exI [of _ i]) simp
qed

lemma HeapPageAllocator_calls_segments [simp]:
  "segments (allocator_called kind call cpa) = segments cpa"
  "CodePageAllocators_AllocXdata (allocator_called kind call cpa) = CodePageAllocators_AllocXdata cpa"
  by (auto simp: allocator_called_def CodePageAllocators_AllocXdata_def split: AllocatorKind.splits)

lemma AllocPages_segments:
  assumes "CodePageAllocators_AllocPages cpa n seg can j f = (addr, seg', f', cpa')"
  shows "segments cpa' = segments cpa"
    and "CodePageAllocators_AllocXdata cpa' = CodePageAllocators_AllocXdata cpa"
  using assms
  by (auto simp: CodePageAllocators_AllocPages_def HeapPageAllocator_AllocPages_def Let_def
      split: if_splits)


lemma Release_segments [simp]:
  "segments (CodePageAllocators_Release cpa addr n seg) = segments cpa"
  "CodePageAllocators_AllocXdata (CodePageAllocators_Release cpa addr n seg)
     = CodePageAllocators_AllocXdata cpa"
  by (simp_all add: CodePageAllocators_Release_def HeapPageAllocator_Release_def
      CodePageAllocators_AllocXdata_def)

lemma Decommit_segments [simp]:
  "segments (CodePageAllocators_DecommitPages cpa addr n seg) = segments cpa"
  "CodePageAllocators_AllocXdata (CodePageAllocators_DecommitPages cpa addr n seg)
     = CodePageAllocators_AllocXdata cpa"
  "segments (CodePageAllocators_TrackDecommittedPages cpa addr n seg) = segments cpa"
  "CodePageAllocators_AllocXdata (CodePageAllocators_TrackDecommittedPages cpa addr n seg)
     = CodePageAllocators_AllocXdata cpa"
  by (simp_all add: CodePageAllocators_DecommitPages_def HeapPageAllocator_DecommitPages_def
      CodePageAllocators_TrackDecommittedPages_def HeapPageAllocator_TrackDecommittedPages_def
      CodePageAllocators_AllocXdata_def)

lemma sum_removeAll_le:
  "sum_list (map (\<lambda>b. length (removeAll p (B b))) bs) \<le> sum_list (map (\<lambda>b. length (B b)) bs)"
proof (induction bs)
  case Nil
  then show ?case by simp
next
  case (Cons c cs)
  show ?case using Cons by (simp add: add_mono)
qed

lemma sum_removeAll_less:
  assumes "c \<in> set bs" and "p \<in> set (B c)"
  shows "sum_list (map (\<lambda>b. length (removeAll p (B b))) bs) < sum_list (map (\<lambda>b. length (B b)) bs)"
  using assms(1)
proof (induction bs)
  case Nil
  then show ?case by simp
next
  case (Cons d ds)
  show ?case
  proof (cases "c = d")
    case True
    have "length (removeAll p (B d)) < length (B d)"
      using assms(2) True by (simp add: removeAll_filter_not_eq length_filter_less)
    then show ?thesis using sum_removeAll_le [of p B ds] by (simp add: add_less_le_mono)
  next
    case False
    then have "c \<in> set ds" using Cons.prems by simp
    then show ?thesis using Cons.IH by (simp add: add_le_less_mono)
  qed
qed

lemma attempts_MoveToFullList:
  assumes "c \<in> set bucketIds" and "p \<in> set (buckets h c)"
  shows "Heap_attempts (Heap_MoveToFullList h p b) < Heap_attempts h"
  using sum_removeAll_less [of c bucketIds p "buckets h"] assms
  by (simp add: Heap_attempts_def Heap_MoveToFullList_def unlink_page_def)

lemma GetBucketForSize_valid: "GetBucketForSize bytes \<in> set bucketIds"
  by (simp add: GetBucketForSize_def bucketIds_def)

lemma AllocPages_responses:
  assumes "CodePageAllocators_AllocPages cpa n seg can j f = (addr, seg', f', cpa')"
    and "addr \<noteq> 0"
  shows "length (responses (pageAllocator cpa')) + length (responses (preReservedHeapPageAllocator cpa'))
       < length (responses (pageAllocator cpa)) + length (responses (preReservedHeapPageAllocator cpa))"
proof -
  have nz: "resp_address (next_response pa) \<noteq> 0 \<Longrightarrow>
             length (responses pa) - Suc 0 < length (responses pa)" for pa
    by (cases "responses pa") (auto simp: next_response_def)
  show ?thesis
    using assms nz [of "pageAllocator cpa"] nz [of "preReservedHeapPageAllocator cpa"]
    by (auto simp: CodePageAllocators_AllocPages_def HeapPageAllocator_AllocPages_def Let_def
        allocator_called_def allocator_of_def split: if_splits)
qed

lemma attempts_new_page:
  assumes "CodePageAllocators_AllocPages (codePageAllocators h) 1 0 can j f = (addr, seg, f', cpa)"
    and "addr \<noteq> 0"
  shows "Heap_attempts
           (Heap_MoveToFullList
              (h \<lparr> codePageAllocators := cpa, pageRecords := pageRecords h @ [P],
                    buckets := (buckets h) (b := p # buckets h b) \<rparr>) p c)
         < Heap_attempts h"
proof -
  have "sum_list (map (\<lambda>d. length (removeAll p (((buckets h) (b := p # buckets h b)) d))) bucketIds)
        = sum_list (map (\<lambda>d. length (removeAll p (buckets h d))) bucketIds)"
    by (rule arg_cong [where f = sum_list]) (rule map_cong, auto)
  also have "\<dots> \<le> sum_list (map (\<lambda>d. length (buckets h d)) bucketIds)"
    by (rule sum_removeAll_le)
  finally show ?thesis
    using AllocPages_responses [OF assms]
    by (simp add: Heap_attempts_def Heap_MoveToFullList_def unlink_page_def)
qed

lemma find_Some_set: "find P xs = Some x \<Longrightarrow> x \<in> set xs \<and> P x"
  by (induction xs) (auto split: if_splits)

lemma FindPageToSplit_cases:
  assumes "Heap_FindPageToSplit h b = (r, h1)"
  obtains (nosplit) "r = None" "h1 = h"
  | (found) p where "r = Some p" "p < length (pageRecords h)"
      "p \<in> set (concat (map (buckets h) bucketIds))"
      "h1 = h \<lparr> pageRecords := (pageRecords h)
                  [p := (pageRecords h ! p) \<lparr> currentBucket := b \<rparr>],
               buckets := (unlink_page p (buckets h)) (b := p # removeAll p (buckets h b)) \<rparr>"
proof (cases "find (Heap_pageCanAllocate h b)
             (concat (map (buckets h)
                (filter (\<lambda>c. BucketId_value b < BucketId_value c) bucketIds)))")
  case None
  then show ?thesis using assms nosplit by (simp add: Heap_FindPageToSplit_def)
next
  case (Some p)
  from find_Some_set [OF Some] have c: "Heap_pageCanAllocate h b p"
    and m: "p \<in> set (concat (map (buckets h)
                (filter (\<lambda>c. BucketId_value b < BucketId_value c) bucketIds)))"
    by simp_all
  from c have p: "p < length (pageRecords h)"
    by (auto simp: Heap_pageCanAllocate_def Heap_page_def split: if_splits)
  from m have m': "p \<in> set (concat (map (buckets h) bucketIds))" by auto
  show ?thesis using assms Some found [OF _ p m'] by (simp add: Heap_FindPageToSplit_def)
qed

lemma AllocNewPage_cases:
  assumes "Heap_AllocNewPage h b can j f = (r, f', h1)"
  obtains (null) cpa where "r = None" "h1 = h \<lparr> codePageAllocators := cpa \<rparr>"
      "segments cpa = segments (codePageAllocators h)"
      "CodePageAllocators_AllocXdata cpa = CodePageAllocators_AllocXdata (codePageAllocators h)"
  | (fresh) cpa addr seg where "r = Some (length (pageRecords h))"
      "h1 = h \<lparr> codePageAllocators := cpa,
                pageRecords := pageRecords h @ [Page_new addr seg b],
                buckets := (buckets h) (b := length (pageRecords h) # buckets h b) \<rparr>"
      "segments cpa = segments (codePageAllocators h)"
      "CodePageAllocators_AllocXdata cpa = CodePageAllocators_AllocXdata (codePageAllocators h)"
      "CodePageAllocators_AllocPages (codePageAllocators h) 1 0 can j f = (addr, seg, f', cpa)"
      "addr \<noteq> 0"
proof -
  obtain addr seg fl cpa where a: "CodePageAllocators_AllocPages (codePageAllocators h) 1 0 can j f
      = (addr, seg, fl, cpa)"
    by (cases "CodePageAllocators_AllocPages (codePageAllocators h) 1 0 can j f")
  note s = AllocPages_segments [OF a]
  show ?thesis
  proof (cases "addr = 0")
    case True
    then show ?thesis using assms a s null [of cpa] by (simp add: Heap_AllocNewPage_def)
  next
    case False
    then show ?thesis using assms a s fresh [where cpa = cpa and addr = addr and seg = seg]
      by (simp add: Heap_AllocNewPage_def Let_def)
  qed
qed

text \<open>
  The three places a page can come from, and what the heap is when none is found.
\<close>

lemma FindPage_cases:
  assumes "Heap_FindPage h b can j f = (r, f', h1)"
  obtains (none) cpa where "r = None" "h1 = h \<lparr> codePageAllocators := cpa \<rparr>"
      "segments cpa = segments (codePageAllocators h)"
      "CodePageAllocators_AllocXdata cpa = CodePageAllocators_AllocXdata (codePageAllocators h)"
  | (bucket) p where "r = Some (p, FromBucket)" "h1 = h" "p \<in> set (buckets h b)"
      "p < length (pageRecords h)"
  | (split) p where "r = Some (p, FromSplit)" "p < length (pageRecords h)"
      "p \<in> set (concat (map (buckets h) bucketIds))"
      "h1 = h \<lparr> pageRecords := (pageRecords h)
                  [p := (pageRecords h ! p) \<lparr> currentBucket := b \<rparr>],
               buckets := (unlink_page p (buckets h)) (b := p # removeAll p (buckets h b)) \<rparr>"
  | (new) cpa addr seg where "r = Some (length (pageRecords h), FromNewPage)"
      "h1 = h \<lparr> codePageAllocators := cpa,
                pageRecords := pageRecords h @ [Page_new addr seg b],
                buckets := (buckets h) (b := length (pageRecords h) # buckets h b) \<rparr>"
      "segments cpa = segments (codePageAllocators h)"
      "CodePageAllocators_AllocXdata cpa = CodePageAllocators_AllocXdata (codePageAllocators h)"
      "CodePageAllocators_AllocPages (codePageAllocators h) 1 0 can j f = (addr, seg, f', cpa)"
      "addr \<noteq> 0"
proof (cases "find (Heap_pageCanAllocate h b) (buckets h b)")
  case (Some p)
  from find_Some_set [OF Some] have "Heap_pageCanAllocate h b p" and m: "p \<in> set (buckets h b)"
    by simp_all
  then have "p < length (pageRecords h)"
    by (auto simp: Heap_pageCanAllocate_def Heap_page_def split: if_splits)
  then show ?thesis using assms Some m bucket [of p] by (simp add: Heap_FindPage_def)
next
  case None
  obtain r1 hs where s: "Heap_FindPageToSplit h b = (r1, hs)"
    by (cases "Heap_FindPageToSplit h b")
  from s show ?thesis
  proof (cases rule: FindPageToSplit_cases)
    case (found p)
    then show ?thesis using assms None s split [of p]
      by (simp add: Heap_FindPage_def)
  next
    case nosplit
    obtain r2 f2 h2 where n: "Heap_AllocNewPage h b can j f = (r2, f2, h2)"
      by (cases "Heap_AllocNewPage h b can j f")
    from n show ?thesis
    proof (cases rule: AllocNewPage_cases)
      case (null cpa)
      then show ?thesis using assms None s nosplit n none [of cpa]
        by (simp add: Heap_FindPage_def)
    next
      case (fresh cpa addr seg)
      then show ?thesis using assms None s nosplit n new [where cpa = cpa and addr = addr and seg = seg]
        by (simp add: Heap_FindPage_def)
    qed
  qed
qed

lemma UndoFindPage_split:
  assumes "p < length (pageRecords h)"
  shows "Heap_UndoFindPage h
           (h \<lparr> pageRecords := (pageRecords h) [p := (pageRecords h ! p) \<lparr> currentBucket := b \<rparr>],
                buckets := B \<rparr>) p FromSplit = h"
  using assms by (simp add: Heap_UndoFindPage_def list_update_same_conv)

lemma UndoFindPage_new:
  "Heap_UndoFindPage h
     (h \<lparr> codePageAllocators := cpa, pageRecords := pageRecords h @ [P], buckets := B \<rparr>)
     (length (pageRecords h)) FromNewPage
   = h \<lparr> codePageAllocators := CodePageAllocators_Release cpa (address P) 1 (segment P) \<rparr>"
  by (simp add: Heap_UndoFindPage_def)

lemma pageShouldBeInFullList_lists [simp]:
  "Heap_pageShouldBeInFullList (h \<lparr> buckets := B \<rparr>) = Heap_pageShouldBeInFullList h"
  "Heap_pageShouldBeInFullList (h \<lparr> fullPages := F \<rparr>) = Heap_pageShouldBeInFullList h"
  by (simp_all add: Heap_pageShouldBeInFullList_def Heap_page_def Heap_ShouldBeInFullList_def
      fun_eq_iff)

lemma pageShouldBeInFullList_currentBucket:
  "p < length (pageRecords h) \<Longrightarrow>
   Heap_pageShouldBeInFullList
     (h \<lparr> pageRecords := (pageRecords h) [p := (pageRecords h ! p) \<lparr> currentBucket := b \<rparr>] \<rparr>) q
   = Heap_pageShouldBeInFullList h q"
  by (auto simp: Heap_pageShouldBeInFullList_def Heap_page_def Heap_ShouldBeInFullList_def
      Page_HasNoSpace_def nth_list_update)

lemma page_added_refl: "page_added h h"
  unfolding page_added_def by (rule exI [of _ "codePageAllocators h"]) simp

lemma in_concat_buckets:
  "p \<in> set (concat (map (buckets h) bucketIds)) \<Longrightarrow> \<exists>c \<in> set bucketIds. p \<in> set (buckets h c)"
  by auto

lemma AllocSmall_Suc_cases:
  assumes "Heap_AllocSmall (Suc n) h bytes pd xd can j f = (r, f', h')"
  obtains
    (ok) a p h1 h2 where "r = Inr a"
      "Heap_AllocInPage h1 p bytes pd xd = (Inr a, h2)"
      "h' = h2 \<or> (Heap_pageShouldBeInFullList h2 p
                  \<and> h' = Heap_MoveToFullList h2 p (GetBucketForSize bytes))"
      "page_added h h1
       \<or> (\<exists>q B. q < length (pageRecords h)
             \<and> h1 = h \<lparr> pageRecords := (pageRecords h)
                           [q := (pageRecords h ! q) \<lparr> currentBucket := GetBucketForSize bytes \<rparr>],
                         buckets := B \<rparr>)"
  | (fail) e cpa where "r = Inl e" "h' = h \<lparr> codePageAllocators := cpa \<rparr>"
      "segments cpa = segments (codePageAllocators h)"
      "CodePageAllocators_AllocXdata cpa = CodePageAllocators_AllocXdata (codePageAllocators h)"
  | (retry) p hA f1 where
      "Heap_AllocSmall n (Heap_MoveToFullList hA p (currentBucket (pageRecords hA ! p)))
          bytes pd xd can j f1 = (r, f', h')"
      "Heap_pageShouldBeInFullList hA p" "page_added h hA"
      "Heap_attempts (Heap_MoveToFullList hA p (currentBucket (pageRecords hA ! p)))
         < Heap_attempts h"
      "hA = h \<or> p = length (pageRecords h)"
proof -
  let ?b = "GetBucketForSize bytes"
  obtain r1 f1 h1 where fp: "Heap_FindPage h ?b can j f = (r1, f1, h1)"
    by (cases "Heap_FindPage h ?b can j f")
  from fp show ?thesis
  proof (cases rule: FindPage_cases)
    case (none cpa)
    then show ?thesis using assms fp fail [of OutOfMemory cpa] by simp
  next
    case (bucket p)
    obtain r2 h2 where ai: "Heap_AllocInPage h p bytes pd xd = (r2, h2)"
      by (cases "Heap_AllocInPage h p bytes pd xd")
    show ?thesis
    proof (cases r2)
      case (Inr a)
      then show ?thesis using assms fp bucket ai page_added_refl [of h] ok [of a h p h2]
        by (auto split: if_splits)
    next
      case (Inl e)
      then have h2: "h2 = h" using ai AllocInPage_fail by blast
      show ?thesis
      proof (cases "e = SecondaryExhausted \<and> Heap_pageShouldBeInFullList h p")
        case False
        then have "r = Inl e" "h' = h \<lparr> codePageAllocators := codePageAllocators h \<rparr>"
          using assms fp bucket ai Inl h2 by (auto simp: Heap_UndoFindPage_def)
        then show ?thesis using fail [of e "codePageAllocators h"] by simp
      next
        case True
        have m: "Heap_attempts (Heap_MoveToFullList h p (currentBucket (pageRecords h ! p)))
                   < Heap_attempts h"
          using attempts_MoveToFullList [OF GetBucketForSize_valid bucket(3)] .
        have "Heap_AllocSmall n (Heap_MoveToFullList h p (currentBucket (pageRecords h ! p)))
                bytes pd xd can j f1 = (r, f', h')"
          using assms fp bucket ai Inl h2 True by (simp add: Heap_RetirePage_def)
        then show ?thesis
          using True m page_added_refl [of h] retry [of h p f1] by simp
      qed
    qed
  next
    case (split p)
    obtain r2 h2 where ai: "Heap_AllocInPage h1 p bytes pd xd = (r2, h2)"
      by (cases "Heap_AllocInPage h1 p bytes pd xd")
    have undo: "Heap_UndoFindPage h h1 p FromSplit = h"
      unfolding split(4) by (rule UndoFindPage_split [OF split(2)])
    have sh: "Heap_pageShouldBeInFullList h1 p = Heap_pageShouldBeInFullList h p"
      unfolding split(4) using pageShouldBeInFullList_currentBucket [OF split(2)] by simp
    show ?thesis
    proof (cases r2)
      case (Inr a)
      have "\<exists>q B. q < length (pageRecords h)
             \<and> h1 = h \<lparr> pageRecords := (pageRecords h)
                           [q := (pageRecords h ! q) \<lparr> currentBucket := ?b \<rparr>],
                         buckets := B \<rparr>"
        using split(2,4) by blast
      then show ?thesis using assms fp split(1) ai Inr ok [of a h1 p h2]
        by (auto split: if_splits)
    next
      case (Inl e)
      then have h2: "h2 = h1" using ai AllocInPage_fail by blast
      show ?thesis
      proof (cases "e = SecondaryExhausted \<and> Heap_pageShouldBeInFullList h p")
        case False
        then have "r = Inl e" "h' = h \<lparr> codePageAllocators := codePageAllocators h \<rparr>"
          using assms fp split(1) ai Inl h2 undo sh by auto
        then show ?thesis using fail [of e "codePageAllocators h"] by simp
      next
        case True
        obtain c where c: "c \<in> set bucketIds" "p \<in> set (buckets h c)"
          using in_concat_buckets [OF split(3)] by blast
        have m: "Heap_attempts (Heap_MoveToFullList h p (currentBucket (pageRecords h ! p)))
                   < Heap_attempts h"
          using attempts_MoveToFullList [OF c] .
        have "Heap_AllocSmall n (Heap_MoveToFullList h p (currentBucket (pageRecords h ! p)))
                bytes pd xd can j f1 = (r, f', h')"
          using assms fp split(1) ai Inl h2 True sh undo by (simp add: Heap_RetirePage_def)
        then show ?thesis
          using True m page_added_refl [of h] retry [of h p f1] by simp
      qed
    qed
  next
    case (new cpa addr seg)
    let ?p = "length (pageRecords h)"
    obtain r2 h2 where ai: "Heap_AllocInPage h1 ?p bytes pd xd = (r2, h2)"
      by (cases "Heap_AllocInPage h1 ?p bytes pd xd")
    have pa: "page_added h h1"
      unfolding page_added_def using new(2,3,4) by blast
    show ?thesis
    proof (cases r2)
      case (Inr a)
      then show ?thesis using assms fp new(1) ai pa ok [of a h1 ?p h2]
        by (auto split: if_splits)
    next
      case (Inl e)
      then have h2: "h2 = h1" using ai AllocInPage_fail by blast
      show ?thesis
      proof (cases "e = SecondaryExhausted \<and> Heap_pageShouldBeInFullList h1 ?p")
        case False
        have "Heap_UndoFindPage h h1 ?p FromNewPage
               = h \<lparr> codePageAllocators := CodePageAllocators_Release cpa
                        (address (Page_new addr seg ?b)) 1 (segment (Page_new addr seg ?b)) \<rparr>"
          unfolding new(2) by (rule UndoFindPage_new)
        then have "r = Inl e"
          "h' = h \<lparr> codePageAllocators := CodePageAllocators_Release cpa
                        (address (Page_new addr seg ?b)) 1 (segment (Page_new addr seg ?b)) \<rparr>"
          using assms fp new(1) ai Inl h2 False by (auto simp: Let_def)
        then show ?thesis
          using new(3,4) fail [of e "CodePageAllocators_Release cpa
                        (address (Page_new addr seg ?b)) 1 (segment (Page_new addr seg ?b))"]
          by simp
      next
        case True
        have m: "Heap_attempts (Heap_MoveToFullList h1 ?p (currentBucket (pageRecords h1 ! ?p)))
                   < Heap_attempts h"
          unfolding new(2) using attempts_new_page [OF new(5,6)] by simp
        have "Heap_AllocSmall n (Heap_MoveToFullList h1 ?p (currentBucket (pageRecords h1 ! ?p)))
                bytes pd xd can j f1 = (r, f', h')"
          using assms fp new(1) ai Inl h2 True by (simp add: Heap_RetirePage_def)
        then show ?thesis
          using True m pa retry [of h1 ?p f1] by simp
      qed
    qed
  qed
qed

lemma page_bits_MoveToFullList [simp]:
  "page_bits (Heap_MoveToFullList h p b) = page_bits h"
  by (simp add: Heap_MoveToFullList_def)

lemma page_added_bits:
  assumes "page_added h h'"
  shows "\<exists>ext. all_free ext \<and> page_bits h' = page_bits h @ ext"
proof -
  from assms obtain cpa where
    "h' = h \<lparr> codePageAllocators := cpa \<rparr>
     \<or> (\<exists>addr seg b.
           h' = h \<lparr> codePageAllocators := cpa,
                     pageRecords := pageRecords h @ [Page_new addr seg b],
                     buckets := (buckets h) (b := length (pageRecords h) # buckets h b) \<rparr>)"
    unfolding page_added_def by blast
  then show ?thesis
  proof
    assume "h' = h \<lparr> codePageAllocators := cpa \<rparr>"
    then have "all_free [] \<and> page_bits h' = page_bits h @ []" by (simp add: all_free_def)
    then show ?thesis by blast
  next
    assume "\<exists>addr seg b.
           h' = h \<lparr> codePageAllocators := cpa,
                     pageRecords := pageRecords h @ [Page_new addr seg b],
                     buckets := (buckets h) (b := length (pageRecords h) # buckets h b) \<rparr>"
    then obtain addr seg b where
      "h' = h \<lparr> codePageAllocators := cpa,
                     pageRecords := pageRecords h @ [Page_new addr seg b],
                     buckets := (buckets h) (b := length (pageRecords h) # buckets h b) \<rparr>"
      by blast
    then have "all_free [(0xFFFFFFFF, addr)] \<and> page_bits h' = page_bits h @ [(0xFFFFFFFF, addr)]"
      by (simp add: all_free_def page_bits_def Page_new_def)
    then show ?thesis by blast
  qed
qed

lemma page_bits_currentBucket:
  "q < length (pageRecords h) \<Longrightarrow>
   page_bits (h \<lparr> pageRecords := (pageRecords h) [q := (pageRecords h ! q) \<lparr> currentBucket := b \<rparr>],
                  buckets := B \<rparr>) = page_bits h"
  by (simp add: page_bits_def map_update list_update_same_conv)

text \<open>
  A successful small allocation, on the bit vectors: fresh pages are appended, then the
  chunks are taken.
\<close>

lemma AllocSmall_effect:
  assumes "Heap_AllocSmall n h bytes pd xd can j f = (Inr a, f', h')"
  shows "\<exists>ext. all_free ext \<and> takes_chunks (page_bits h @ ext) bytes a (page_bits h')"
  using assms
proof (induction n arbitrary: h f)
  case 0
  then show ?case by simp
next
  case (Suc n)
  from Suc.prems show ?case
  proof (cases rule: AllocSmall_Suc_cases)
    case (ok a' p h1 h2)
    then have t: "takes_chunks (page_bits h1) bytes a (page_bits h2)"
      using AllocInPage_takes_chunks by simp
    have b': "page_bits h' = page_bits h2" using ok(3) by auto
    from ok(4) have "\<exists>ext. all_free ext \<and> page_bits h1 = page_bits h @ ext"
    proof
      assume "page_added h h1" then show ?thesis by (rule page_added_bits)
    next
      assume "\<exists>q B. q < length (pageRecords h)
             \<and> h1 = h \<lparr> pageRecords := (pageRecords h)
                           [q := (pageRecords h ! q) \<lparr> currentBucket := GetBucketForSize bytes \<rparr>],
                         buckets := B \<rparr>"
      then have "all_free [] \<and> page_bits h1 = page_bits h @ []"
        using page_bits_currentBucket by (auto simp: all_free_def)
      then show ?thesis by blast
    qed
    then show ?thesis using t b' by auto
  next
    case (fail e cpa)
    then show ?thesis by simp
  next
    case (retry p hA f1)
    from Suc.IH [OF retry(1)] obtain ext where
      e: "all_free ext"
      and t: "takes_chunks (page_bits hA @ ext) bytes a (page_bits h')"
      by auto
    from page_added_bits [OF retry(3)] obtain ext0 where
      e0: "all_free ext0" and b0: "page_bits hA = page_bits h @ ext0"
      by blast
    have "all_free (ext0 @ ext)" using e e0 by (auto simp: all_free_def)
    moreover have "takes_chunks (page_bits h @ ext0 @ ext) bytes a (page_bits h')"
      using t b0 by simp
    ultimately show ?thesis by blast
  qed
qed

lemma Alloc_small_effect:
  assumes "Heap_Alloc h bytes pd xd can j f = (Inr a, f', h')"
    and "\<not> bytes > ucast Page_MaxAllocationSize"
  shows "\<exists>ext. all_free ext \<and> takes_chunks (page_bits h @ ext) bytes a (page_bits h')"
  using assms AllocSmall_effect by (simp add: Heap_Alloc_def)


lemma page_bits_FreeXdata [simp]: "page_bits (Heap_FreeXdata h x seg) = page_bits h"
  by (simp add: Heap_FreeXdata_def Let_def split: prod.splits)

lemma pageRecords_FreeXdata [simp]: "pageRecords (Heap_FreeXdata h x seg) = pageRecords h"
  by (simp add: Heap_FreeXdata_def Let_def split: prod.splits)

lemma Free_small_effect:
  assumes "\<not> Allocation_IsLargeAllocation a" and "owner a = OwnerPage p"
    and "p < length (page_bits h)" and "page_bits h ! p = (w, ad)"
  shows "\<exists>h'. Heap_Free h a = (True, h')
           \<and> page_bits h' = (page_bits h)
                [p := (BVUnit_SetRange w
                         (ucast ((alloc_address a - ad) div ucast Page_Alignment))
                         (chunks_for_size (alloc_size a)), ad)]"
proof -
  have p: "p < length (pageRecords h)" using assms(3) by simp
  define page where "page = pageRecords h ! p"
  have pg: "Heap_page h p = Some page" using p by (simp add: Heap_page_def page_def)
  have w: "freeBitVector page = w" and ad: "address page = ad"
    using assms(4) page_bits_nth [OF p] by (simp_all add: page_def)
  show ?thesis
    using assms(1,2) pg p w ad
    by (auto simp: Heap_Free_def Let_def Heap_GetIndexInPage_def page_bits_def map_update
        split: option.splits)
qed

lemma free_sequence_append:
  "Heap_free_sequence h (xs @ ys) =
     (case Heap_free_sequence h xs of None \<Rightarrow> None | Some h1 \<Rightarrow> Heap_free_sequence h1 ys)"
  by (induction xs arbitrary: h) (auto split: prod.splits bool.splits)

lemma takes_chunks_undone:
  assumes t: "takes_chunks bs bytes a (page_bits h1)"
    and small: "\<not> bytes > ucast Page_MaxAllocationSize"
    and later: "page_bits h2 = page_bits h1 @ ext"
  shows "\<exists>h3. Heap_Free h2 a = (True, h3) \<and> page_bits h3 = bs @ ext"
proof -
  from t obtain p w ad i where
    o: "owner a = OwnerPage p" and p: "p < length bs" and n: "bs ! p = (w, ad)"
    and run: "run_of_ones w (unat i) (unat (chunks_for_size bytes))"
    and i: "unat i < 32"
    and addr: "alloc_address a = ad + ucast Page_Alignment * ucast i"
    and sz: "alloc_size a = bytes"
    and b1: "page_bits h1 = bs [p := (BVUnit_ClearRange w i (chunks_for_size bytes), ad)]"
    unfolding takes_chunks_def by blast
  have ns: "\<not> Allocation_IsLargeAllocation a"
    using small sz by (simp add: Allocation_IsLargeAllocation_def)
  have p2: "p < length (page_bits h2)" using later b1 p by simp
  have n2: "page_bits h2 ! p = (BVUnit_ClearRange w i (chunks_for_size bytes), ad)"
    using later b1 p by (simp add: nth_append)
  have idx: "ucast ((alloc_address a - ad) div ucast Page_Alignment) = i"
    using GetIndexInPage_roundtrip [OF i, of "\<lparr> isDecommitted = False, segment = 0, freeBitVector = 0, address = ad, currentBucket = SmallObjectList \<rparr>"]
    by (simp add: Heap_GetIndexInPage_def addr)
  from Free_small_effect [OF ns o p2 n2] obtain h3 where
    f: "Heap_Free h2 a = (True, h3)"
    and b3: "page_bits h3 = (page_bits h2)
                [p := (BVUnit_SetRange (BVUnit_ClearRange w i (chunks_for_size bytes))
                         (ucast ((alloc_address a - ad) div ucast Page_Alignment))
                         (chunks_for_size (alloc_size a)), ad)]"
    by blast
  have "page_bits h3 = (page_bits h2) [p := (w, ad)]"
    using b3 idx sz SetRange_ClearRange [OF run] by simp
  also have "\<dots> = bs @ ext"
    using later b1 p n by (simp add: list_update_append list_update_same_conv)
  finally show ?thesis using f by blast
qed

lemma alloc_free_roundtrip:
  assumes "Heap_alloc_sequence h flag reqs = Some (as, flag', h1)"
  shows "\<exists>h2 ext. Heap_free_sequence h1 (rev as) = Some h2
           \<and> page_bits h2 = page_bits h @ ext \<and> all_free ext"
  using assms
proof (induction reqs arbitrary: h flag as flag' h1)
  case Nil
  then show ?case by (simp add: all_free_def)
next
  case (Cons r rs)
  obtain bytes pd xd can j where r: "r = (bytes, pd, xd, can, j)" by (cases r) auto
  from Cons.prems r have small: "\<not> bytes > ucast Page_MaxAllocationSize"
    by (auto split: if_splits)
  from Cons.prems r small obtain a f1 hA as' where
    al: "Heap_Alloc h bytes pd xd can j flag = (Inr a, f1, hA)"
    and rest: "Heap_alloc_sequence hA f1 rs = Some (as', flag', h1)"
    and as: "as = a # as'"
    by (auto split: prod.splits sum.splits option.splits)
  from Cons.IH [OF rest] obtain h2 ext where
    fr: "Heap_free_sequence h1 (rev as') = Some h2"
    and b2: "page_bits h2 = page_bits hA @ ext" and fe: "all_free ext"
    by blast
  from Alloc_small_effect [OF al small] obtain ext0 where
    e0: "all_free ext0"
    and t: "takes_chunks (page_bits h @ ext0) bytes a (page_bits hA)"
    by blast
  from takes_chunks_undone [OF t small b2] obtain h3 where
    f3: "Heap_Free h2 a = (True, h3)" and b3: "page_bits h3 = (page_bits h @ ext0) @ ext"
    by blast
  have "Heap_free_sequence h1 (rev as) = Some h3"
    using fr f3 by (simp add: as free_sequence_append)
  moreover have "all_free (ext0 @ ext)"
    using e0 fe by (auto simp: all_free_def)
  ultimately show ?case using b3 by (intro exI [of _ h3] exI [of _ "ext0 @ ext"]) simp
qed














lemma Heap_page_lists [simp]:
  "Heap_page (h \<lparr> buckets := B \<rparr>) = Heap_page h"
  "Heap_page (h \<lparr> fullPages := F \<rparr>) = Heap_page h"
  by (simp_all add: Heap_page_def fun_eq_iff)

lemma ShouldBeInFullList_lists [simp]:
  "Heap_ShouldBeInFullList (h \<lparr> buckets := B \<rparr>) = Heap_ShouldBeInFullList h"
  "Heap_ShouldBeInFullList (h \<lparr> fullPages := F \<rparr>) = Heap_ShouldBeInFullList h"
  by (simp_all add: Heap_ShouldBeInFullList_def fun_eq_iff)









lemma ReleaseSecondary_AllocXdata [simp]:
  "CodePageAllocators_AllocXdata (CodePageAllocators_ReleaseSecondary cpa x seg)
     = CodePageAllocators_AllocXdata cpa"
  by (simp add: CodePageAllocators_ReleaseSecondary_def HeapPageAllocator_ReleaseSecondary_def
      CodePageAllocators_AllocXdata_def Let_def)





lemma FreeXdata_AllocXdata [simp]:
  "CodePageAllocators_AllocXdata (codePageAllocators (Heap_FreeXdata h x seg))
     = CodePageAllocators_AllocXdata (codePageAllocators h)"
  by (simp add: Heap_FreeXdata_def Let_def split: prod.splits)




lemma Free_length:
  "length (pageRecords (snd (Heap_Free h a))) = length (pageRecords h)"
  by (auto simp: Heap_Free_def Heap_FreeLargeObject_def Let_def
      split: AllocationOwner.splits option.splits if_splits)

lemma free_sequence_length:
  "Heap_free_sequence h as = Some h' \<Longrightarrow> length (pageRecords h') = length (pageRecords h)"
proof (induction as arbitrary: h)
  case Nil
  then show ?case by simp
next
  case (Cons a as)
  then show ?case
    using Free_length [of h a] by (auto split: prod.splits bool.splits)
qed

text \<open>
  The bound on the attempts is never what ends a call: each further attempt starts from a
  heap with a smaller bound, and any larger first argument gives the same result.
\<close>

lemma attempts_RetirePage:
  assumes fp: "Heap_FindPage h (GetBucketForSize bytes) can j f = (Some (p, origin), f1, h1)"
    and ai: "Heap_AllocInPage h1 p bytes pd xd = (Inl e, h2)"
  shows "Heap_attempts (Heap_RetirePage h h2 p origin) < Heap_attempts h"
proof -
  have h2: "h2 = h1" using ai by (rule AllocInPage_fail)
  from fp show ?thesis
  proof (cases rule: FindPage_cases)
    case (none cpa)
    then show ?thesis by simp
  next
    case (bucket q)
    then show ?thesis
      using attempts_MoveToFullList [OF GetBucketForSize_valid bucket(3)] h2
      by (simp add: Heap_RetirePage_def)
  next
    case (split q)
    have undo: "Heap_UndoFindPage h h1 q FromSplit = h"
      unfolding split(4) by (rule UndoFindPage_split [OF split(2)])
    obtain c where c: "c \<in> set bucketIds" "q \<in> set (buckets h c)"
      using in_concat_buckets [OF split(3)] by blast
    show ?thesis
      using attempts_MoveToFullList [OF c] split(1) h2 undo
      by (simp add: Heap_RetirePage_def)
  next
    case (new cpa addr seg)
    then show ?thesis
      using attempts_new_page [OF new(5,6)] h2
      by (simp add: Heap_RetirePage_def)
  qed
qed

lemma AllocSmall_fuel:
  assumes "Heap_attempts h \<le> n"
  shows "Heap_AllocSmall (Suc n) h bytes pd xd can j f = Heap_AllocSmall n h bytes pd xd can j f"
  using assms
proof (induction n arbitrary: h f)
  case 0
  then show ?case by (simp add: Heap_attempts_def)
next
  case (Suc k)
  let ?b = "GetBucketForSize bytes"
  obtain r1 f1 h1 where fp: "Heap_FindPage h ?b can j f = (r1, f1, h1)"
    by (cases "Heap_FindPage h ?b can j f")
  show ?case
  proof (cases r1)
    case None
    then show ?thesis using fp by simp
  next
    case (Some po)
    obtain p origin where po: "po = (p, origin)" by (cases po)
    obtain r2 h2 where ai: "Heap_AllocInPage h1 p bytes pd xd = (r2, h2)"
      by (cases "Heap_AllocInPage h1 p bytes pd xd")
    show ?thesis
    proof (cases r2)
      case (Inr a)
      then show ?thesis using fp Some po ai by simp
    next
      case (Inl e)
      have "Heap_attempts (Heap_RetirePage h h2 p origin) < Heap_attempts h"
        using attempts_RetirePage fp Some po ai Inl by blast
      then have "Heap_attempts (Heap_RetirePage h h2 p origin) \<le> k"
        using Suc.prems by simp
      from Suc.IH [OF this]
      have "Heap_AllocSmall (Suc k) (Heap_RetirePage h h2 p origin) bytes pd xd can j f1
            = Heap_AllocSmall k (Heap_RetirePage h h2 p origin) bytes pd xd can j f1" .
      then show ?thesis
        using fp Some po ai Inl
        by (simp only: Heap_AllocSmall.simps Let_def prod.case option.case sum.case)
    qed
  qed
qed

lemma AllocSmall_enough:
  "Heap_AllocSmall (Heap_attempts h + d) h bytes pd xd can j f
     = Heap_AllocSmall (Heap_attempts h) h bytes pd xd can j f"
proof (induction d)
  case 0
  then show ?case by simp
next
  case (Suc d)
  have "Heap_AllocSmall (Suc (Heap_attempts h + d)) h bytes pd xd can j f
        = Heap_AllocSmall (Heap_attempts h + d) h bytes pd xd can j f"
    by (rule AllocSmall_fuel) simp
  then show ?case using Suc by simp
qed

subsection \<open>C6: pages on the full lists\<close>



subsection \<open>C7: the failing paths of Alloc\<close>




subsection \<open>C8: allocations freed in reverse order\<close>

text \<open>
  C8: for every sequence of successful small allocations on a heap, freeing exactly those
  allocations in reverse order succeeds, and afterwards every page that had all its chunks
  free before the sequence, and every page that the sequence created, has its free bit
  vector equal to all ones: the round trip gives every page the vector it had before the
  sequence. On a new heap, and on any heap whose pages are all empty, every page ends
  with all ones.
\<close>

theorem alloc_free_restores_bits:
  assumes "Heap_alloc_sequence h flag reqs = Some (as, flag', h1)"
  shows "\<exists>h2 ext. Heap_free_sequence h1 (rev as) = Some h2
           \<and> length (pageRecords h2) = length (pageRecords h1)
           \<and> map freeBitVector (pageRecords h2) = map freeBitVector (pageRecords h) @ ext
           \<and> list_all (\<lambda>w. w = 0xFFFFFFFF) ext
           \<and> (\<forall>p < length (pageRecords h2).
                 (p < length (pageRecords h) \<longrightarrow> freeBitVector (pageRecords h ! p) = 0xFFFFFFFF)
                 \<longrightarrow> freeBitVector (pageRecords h2 ! p) = 0xFFFFFFFF)
           \<and> (list_all Page_IsEmpty (pageRecords h) \<longrightarrow> list_all Page_IsEmpty (pageRecords h2))"
proof -
  from alloc_free_roundtrip [OF assms] obtain h2 ext where
    f: "Heap_free_sequence h1 (rev as) = Some h2"
    and b: "page_bits h2 = page_bits h @ ext" and e: "all_free ext"
    by blast
  have l: "length (pageRecords h2) = length (pageRecords h1)"
    by (rule free_sequence_length [OF f])
  have m: "map freeBitVector (pageRecords h2) = map freeBitVector (pageRecords h) @ map fst ext"
  proof -
    have "map fst (page_bits h2) = map fst (page_bits h @ ext)" using b by simp
    then show ?thesis by (simp add: page_bits_def comp_def)
  qed
  have a: "list_all (\<lambda>w. w = 0xFFFFFFFF) (map fst ext)"
    using e by (auto simp: all_free_def list_all_iff)
  have n: "freeBitVector (pageRecords h2 ! p) = 0xFFFFFFFF"
    if p: "p < length (pageRecords h2)"
      and was: "p < length (pageRecords h) \<longrightarrow> freeBitVector (pageRecords h ! p) = 0xFFFFFFFF"
    for p
  proof -
    have "freeBitVector (pageRecords h2 ! p) = map freeBitVector (pageRecords h2) ! p"
      using p by simp
    also have "\<dots> = (map freeBitVector (pageRecords h) @ map fst ext) ! p" by (simp only: m)
    also have "\<dots> = 0xFFFFFFFF"
    proof (cases "p < length (pageRecords h)")
      case True
      then show ?thesis using was by (simp add: nth_append)
    next
      case False
      have "length (pageRecords h2) = length (pageRecords h) + length ext"
        using arg_cong [OF m, of length] by simp
      then have "p - length (pageRecords h) < length (map fst ext)" using p False by simp
      then have "map fst ext ! (p - length (pageRecords h)) \<in> set (map fst ext)"
        by (rule nth_mem)
      then have "map fst ext ! (p - length (pageRecords h)) = 0xFFFFFFFF"
        using a by (auto simp: list_all_iff)
      then show ?thesis using False by (simp add: nth_append)
    qed
    finally show ?thesis .
  qed
  have i: "list_all Page_IsEmpty (pageRecords h2)" if "list_all Page_IsEmpty (pageRecords h)"
  proof -
    have "list_all (\<lambda>w. w = 0xFFFFFFFF) (map freeBitVector (pageRecords h))"
      using that by (simp add: list_all_iff Page_IsEmpty_def BVUnit_IsFull_def)
    then have "list_all (\<lambda>w. w = 0xFFFFFFFF) (map freeBitVector (pageRecords h2))"
      using a unfolding m by simp
    then show ?thesis by (simp add: list_all_iff Page_IsEmpty_def BVUnit_IsFull_def)
  qed
  show ?thesis using f l m a n i by blast
qed

theorem alloc_free_restores_bits_witness:
  "map_option fst roundtrip_run_allocs
     = Some [\<lparr> owner = OwnerPage 0, alloc_address = 0x10000, alloc_size = 100,
                xdata = Some (1, 8) \<rparr>,
             \<lparr> owner = OwnerPage 1, alloc_address = 0x20000, alloc_size = 300,
                xdata = None \<rparr>,
             \<lparr> owner = OwnerPage 1, alloc_address = 0x20180, alloc_size = 129,
                xdata = None \<rparr>]
   \<and> map_option (map freeBitVector \<circ> pageRecords \<circ> snd \<circ> snd) roundtrip_run_allocs
       = Some [0xFFFFFFFE, 0xFFFFFFE0]
   \<and> pageRecords (example_heap 2) = []
   \<and> (\<exists>h2. Heap_free_sequence (snd (snd (the roundtrip_run_allocs)))
               (rev (fst (the roundtrip_run_allocs))) = Some h2
          \<and> length (pageRecords h2) = 2
          \<and> freeBitVector (pageRecords h2 ! 0) = 0xFFFFFFFF
          \<and> freeBitVector (pageRecords h2 ! 1) = 0xFFFFFFFF
          \<and> list_all Page_IsEmpty (pageRecords h2))"
proof -
  have e: "map_option fst roundtrip_run_allocs
     = Some [\<lparr> owner = OwnerPage 0, alloc_address = 0x10000, alloc_size = 100,
                xdata = Some (1, 8) \<rparr>,
             \<lparr> owner = OwnerPage 1, alloc_address = 0x20000, alloc_size = 300,
                xdata = None \<rparr>,
             \<lparr> owner = OwnerPage 1, alloc_address = 0x20180, alloc_size = 129,
                xdata = None \<rparr>]"
    by code_simp
  have v: "map_option (map freeBitVector \<circ> pageRecords \<circ> snd \<circ> snd) roundtrip_run_allocs
       = Some [0xFFFFFFFE, 0xFFFFFFE0]"
    by code_simp
  have i: "pageRecords (example_heap 2) = []"
    by (simp add: example_heap_def Heap_new_def)
  from e obtain as flag' h1 where r: "roundtrip_run_allocs = Some (as, flag', h1)"
    by (cases roundtrip_run_allocs) auto
  have l1: "length (pageRecords h1) = 2"
    using arg_cong [OF v, of "map_option length"] unfolding r by simp
  from alloc_free_restores_bits [OF r [unfolded roundtrip_run_allocs_def]] obtain h2 where
    f: "Heap_free_sequence h1 (rev as) = Some h2"
    and l2: "length (pageRecords h2) = length (pageRecords h1)"
    and n: "\<forall>p < length (pageRecords h2).
                 (p < length (pageRecords (example_heap 2))
                    \<longrightarrow> freeBitVector (pageRecords (example_heap 2) ! p) = 0xFFFFFFFF)
                 \<longrightarrow> freeBitVector (pageRecords h2 ! p) = 0xFFFFFFFF"
    and k: "list_all Page_IsEmpty (pageRecords (example_heap 2))
              \<longrightarrow> list_all Page_IsEmpty (pageRecords h2)"
    by blast
  have "Heap_free_sequence h1 (rev as) = Some h2 \<and> length (pageRecords h2) = 2
          \<and> freeBitVector (pageRecords h2 ! 0) = 0xFFFFFFFF
          \<and> freeBitVector (pageRecords h2 ! 1) = 0xFFFFFFFF
          \<and> list_all Page_IsEmpty (pageRecords h2)"
    using f l1 l2 n k i by simp
  then have "\<exists>h2. Heap_free_sequence (snd (snd (the roundtrip_run_allocs)))
               (rev (fst (the roundtrip_run_allocs))) = Some h2
          \<and> length (pageRecords h2) = 2
          \<and> freeBitVector (pageRecords h2 ! 0) = 0xFFFFFFFF
          \<and> freeBitVector (pageRecords h2 ! 1) = 0xFFFFFFFF
          \<and> list_all Page_IsEmpty (pageRecords h2)"
    unfolding r by auto
  then show ?thesis using e v i by (intro conjI)
qed

end
